theory Spec2Isabelle
  imports Complex_Main
begin

section \<open>Data model of the flow store\<close>

text \<open>
  Modelled from the spec: the type declarations (\<open>State\<close>, \<open>Node\<close>, \<open>GraphNode\<close>, \<open>Edge\<close>,
  \<open>GraphEdge\<close>, the change descriptors, \<open>ErrorCode\<close>), which are not among the sources.
  The records below hold the fields that the store's actions and getters read and write,
  under the names the code uses for them, prefixed per record.
\<close>

text \<open>
  What a field of type \<open>number\<close> holds at run time, as far as the store inspects it: a
  finite number, \<open>NaN\<close>, or \<open>null\<close>, which a snapshot that went through JSON has in place
  of a \<open>NaN\<close>. The store compares these values, tests them for truthiness and stores
  \<open>NaN\<close>; it does no arithmetic in the actions modelled here.
\<close>

datatype number = NaN | Num real | Null

definition truthy :: "number \<Rightarrow> bool" where
  "truthy v = (case v of NaN \<Rightarrow> False | Num r \<Rightarrow> r \<noteq> 0 | Null \<Rightarrow> False)"

text \<open>
  The operator \<open>!==\<close> on these values: \<open>NaN\<close> differs from everything, itself included;
  \<open>null\<close> differs from everything but \<open>null\<close>.
\<close>

definition strictNeq :: "number \<Rightarrow> number \<Rightarrow> bool" where
  "strictNeq a b =
     (case a of
        NaN \<Rightarrow> True
      | Num r \<Rightarrow> (case b of Num s \<Rightarrow> r \<noteq> s | _ \<Rightarrow> True)
      | Null \<Rightarrow> (case b of Null \<Rightarrow> False | _ \<Rightarrow> True))"

text \<open>The user payload \<open>data\<close> of a node or an edge: a JSON value.\<close>

datatype json = JNull | JBool bool | JNum real | JStr string
  | JArr "json list" | JObj "(string \<times> json) list"

record xyPosition =
  pos_x :: number
  pos_y :: number

record xyzPosition =
  cpos_x :: number
  cpos_y :: number
  cpos_z :: number

record dimensions =
  width :: number
  height :: number

record handleElement =
  h_id :: "string option"
  h_position :: xyPosition
  h_dimensions :: dimensions

record handleBounds =
  hb_source :: "handleElement list option"
  hb_target :: "handleElement list option"

text \<open>The loose node record that callers pass in (type \<open>Node\<close>).\<close>

record node =
  n_id :: string
  n_type :: "string option"
  n_position :: xyPosition
  n_data :: json
  n_parentNode :: "string option"
  n_deletable :: "bool option"

text \<open>
  The node record that the store keeps (type \<open>GraphNode\<close>): the fields of \<open>Node\<close>
  and the internal ones. \<open>gn_events\<close> stands for the event bindings, by name.
\<close>

record graphNode =
  gn_id :: string
  gn_type :: "string option"
  gn_position :: xyPosition
  gn_data :: json
  gn_parentNode :: "string option"
  gn_deletable :: "bool option"
  gn_computedPosition :: xyzPosition
  gn_handleBounds :: handleBounds
  gn_selected :: bool
  gn_dimensions :: dimensions
  gn_isParent :: bool
  gn_resizing :: bool
  gn_dragging :: bool
  gn_initialized :: bool
  gn_events :: "string list"

text \<open>The loose edge record that callers pass in (type \<open>Edge\<close>).\<close>

record edge =
  e_id :: string
  e_source :: string
  e_target :: string
  e_sourceHandle :: "string option"
  e_targetHandle :: "string option"
  e_data :: json
  e_deletable :: "bool option"

text \<open>
  The edge record that the store keeps (type \<open>GraphEdge\<close>). \<open>ge_sourceNode\<close> and
  \<open>ge_targetNode\<close> hold the node records that \<open>findNode\<close> returned when the edge was
  stored; the edge builder alone leaves them as it finds them.
\<close>

record graphEdge =
  ge_id :: string
  ge_source :: string
  ge_target :: string
  ge_sourceHandle :: "string option"
  ge_targetHandle :: "string option"
  ge_data :: json
  ge_deletable :: "bool option"
  ge_selected :: bool
  ge_sourceNode :: "graphNode option"
  ge_targetNode :: "graphNode option"
  ge_events :: "string list"

datatype element = ElNode node | ElEdge edge

datatype flowElement = FlowNode graphNode | FlowEdge graphEdge

subsection \<open>Change descriptors, errors and hook events\<close>

datatype selectionChange = SelectionChange (sc_id: string) (sc_selected: bool)

datatype nodeChange =
    NodeSelectionChange selectionChange
  | NodeRemoveChange string
  | NodeDimensionChange string dimensions
  | NodeAddChange graphNode

datatype edgeChange =
    EdgeSelectionChange selectionChange
  | EdgeRemoveChange string string string "string option" "string option"
  | EdgeAddChange graphEdge

datatype errorCode =
    EDGE_SOURCE_MISSING
  | EDGE_TARGET_MISSING
  | EDGE_SOURCE_TARGET_MISSING
  | EDGE_ORPHANED
  | NODE_TYPE_MISSING

datatype vueFlowError = VueFlowError errorCode "string list"

text \<open>What the store hands to its hooks: one value per call of \<open>trigger\<close>, in call order.\<close>

datatype hookEvent =
    NodesChange "nodeChange list"
  | EdgesChange "edgeChange list"
  | ErrorEvent vueFlowError

datatype handleType = Source | Target

record connectingHandle =
  ch_nodeId :: string
  ch_type :: handleType
  ch_handleId :: "string option"

datatype connectionStatus = Valid | Invalid

record viewportTransform =
  vp_x :: number
  vp_y :: number
  vp_zoom :: number

text \<open>
  The rendered flow element: \<open>querySelector\<close> finds the transformation pane or not, and
  the pane's transform matrix gives the zoom (\<open>m22\<close>).
\<close>

record vueFlowElement =
  transformationPane :: "number option"

text \<open>A key of the connection lookup: node id, handle id or null, handle type.\<close>

type_synonym lookupKey = "string \<times> string option \<times> handleType"

text \<open>The store option \<open>defaultEdgeOptions\<close>, as far as the edge builder reads it.\<close>

record edgeOptions =
  deo_deletable :: "bool option"

type_synonym validConnectionFunc =
  "edge \<Rightarrow> graphEdge list \<Rightarrow> graphNode list \<Rightarrow> graphNode option \<Rightarrow> graphNode option \<Rightarrow> bool"

record state =
  nodes :: "graphNode list"
  edges :: "graphEdge list"
  initialized :: bool
  multiSelectionActive :: bool
  isValidConnection :: "validConnectionFunc option"
  defaultEdgeOptions :: "edgeOptions option"
  connectionLookup :: "lookupKey \<Rightarrow> string set"
  connectionStartHandle :: "connectingHandle option"
  connectionClickStartHandle :: "connectingHandle option"
  connectionEndHandle :: "connectingHandle option"
  connectionStatus :: "connectionStatus option"
  connectionPosition :: xyPosition
  vueFlowRef :: "vueFlowElement option"
  fitViewOnInit :: bool
  fitViewOnInitDone :: bool
  fitViewScheduled :: bool
  viewport :: viewportTransform
  viewportRequest :: "viewportTransform option"
  triggered :: "hookEvent list"

definition trigger :: "hookEvent \<Rightarrow> state \<Rightarrow> state" where
  "trigger ev st = st\<lparr>triggered := triggered st @ [ev]\<rparr>"

section \<open>Lookups\<close>

text \<open>
  \<open>new Map(nodes.map((n) => [n.id, n]))\<close>: of two entries with one key the later one
  stays.
\<close>

definition nodesMap :: "state \<Rightarrow> string \<Rightarrow> graphNode option" where
  "nodesMap st = map_of (rev (map (\<lambda>n. (gn_id n, n)) (nodes st)))"

definition edgesMap :: "state \<Rightarrow> string \<Rightarrow> graphEdge option" where
  "edgesMap st = map_of (rev (map (\<lambda>e. (ge_id e, e)) (edges st)))"

text \<open>The actions \<open>findNode\<close> and \<open>findEdge\<close>: a falsy id (the empty string) finds nothing.\<close>

definition findNode :: "state \<Rightarrow> string \<Rightarrow> graphNode option" where
  "findNode st i = (if i = [] then None else nodesMap st i)"

definition findEdge :: "state \<Rightarrow> string \<Rightarrow> graphEdge option" where
  "findEdge st i = (if i = [] then None else edgesMap st i)"

text \<open>The deprecated getters \<open>getNode\<close> and \<open>getEdge\<close>: the map lookup alone.\<close>

definition getNode :: "state \<Rightarrow> string \<Rightarrow> graphNode option" where
  "getNode st i = nodesMap st i"

definition getEdge :: "state \<Rightarrow> string \<Rightarrow> graphEdge option" where
  "getEdge st i = edgesMap st i"

section \<open>Connection gesture\<close>

text \<open>The pointer event that the three actions receive is not read by any of them.\<close>

definition startConnection ::
  "connectingHandle \<Rightarrow> xyPosition option \<Rightarrow> bool \<Rightarrow> state \<Rightarrow> state" where
  "startConnection startHandle position isClick st =
     (let st1 = (if isClick then st\<lparr>connectionClickStartHandle := Some startHandle\<rparr>
                 else st\<lparr>connectionStartHandle := Some startHandle\<rparr>);
          st2 = st1\<lparr>connectionEndHandle := None, connectionStatus := None\<rparr>
      in case position of
           Some p \<Rightarrow> st2\<lparr>connectionPosition := p\<rparr>
         | None \<Rightarrow> st2)"

definition updateConnection ::
  "xyPosition \<Rightarrow> connectingHandle option \<Rightarrow> connectionStatus option \<Rightarrow> state \<Rightarrow> state" where
  "updateConnection position result status st =
     (if connectionStartHandle st \<noteq> None
      then st\<lparr>connectionPosition := position, connectionEndHandle := result,
              connectionStatus := status\<rparr>
      else st)"

definition endConnection :: "bool \<Rightarrow> state \<Rightarrow> state" where
  "endConnection isClick st =
     (let st1 = st\<lparr>connectionPosition := \<lparr>pos_x = NaN, pos_y = NaN\<rparr>,
                    connectionEndHandle := None, connectionStatus := None\<rparr>
      in if isClick then st1\<lparr>connectionClickStartHandle := None\<rparr>
         else st1\<lparr>connectionStartHandle := None\<rparr>)"

section \<open>Helpers of the utility module\<close>

text \<open>
  Modelled from the spec: the change constructors \<open>createSelectionChange\<close>,
  \<open>createNodeRemoveChange\<close> and \<open>createEdgeRemoveChange\<close> of the utility module, which are
  not among the sources. Each builds the change descriptor of its name from its arguments.
  An optional field that is absent (\<open>undefined\<close>, for which \<open>isDef\<close> is false) is \<open>None\<close>.
\<close>

definition createSelectionChange :: "string \<Rightarrow> bool \<Rightarrow> selectionChange" where
  "createSelectionChange i selected = SelectionChange i selected"

definition createNodeRemoveChange :: "string \<Rightarrow> nodeChange" where
  "createNodeRemoveChange i = NodeRemoveChange i"

definition createEdgeRemoveChange ::
  "string \<Rightarrow> string \<Rightarrow> string \<Rightarrow> string option \<Rightarrow> string option \<Rightarrow> edgeChange" where
  "createEdgeRemoveChange i src tgt srcHandle tgtHandle =
     EdgeRemoveChange i src tgt srcHandle tgtHandle"

text \<open>\<open>elements.filter(isNode)\<close> and \<open>elements.filter(isEdge)\<close> on a mixed element list.\<close>

primrec nodesOf :: "element list \<Rightarrow> node list" where
  "nodesOf [] = []"
| "nodesOf (el # els) = (case el of ElNode n \<Rightarrow> n # nodesOf els | ElEdge _ \<Rightarrow> nodesOf els)"

primrec edgesOf :: "element list \<Rightarrow> edge list" where
  "edgesOf [] = []"
| "edgesOf (el # els) = (case el of ElNode _ \<Rightarrow> edgesOf els | ElEdge e \<Rightarrow> e # edgesOf els)"

text \<open>A stored edge seen as an \<open>Edge\<close>: the fields that \<open>GraphEdge\<close> inherits.\<close>

definition asEdge :: "graphEdge \<Rightarrow> edge" where
  "asEdge g = \<lparr>e_id = ge_id g, e_source = ge_source g, e_target = ge_target g,
               e_sourceHandle = ge_sourceHandle g, e_targetHandle = ge_targetHandle g,
               e_data = ge_data g, e_deletable = ge_deletable g\<rparr>"

text \<open>A stored node seen as a \<open>Node\<close>: the fields that \<open>GraphNode\<close> inherits.\<close>

definition asNode :: "graphNode \<Rightarrow> node" where
  "asNode g = \<lparr>n_id = gn_id g, n_type = gn_type g, n_position = gn_position g,
               n_data = gn_data g, n_parentNode = gn_parentNode g,
               n_deletable = gn_deletable g\<rparr>"

text \<open>
  Modelled from the spec: \<open>updateConnectionLookup(index, edges)\<close> of the utility module,
  which is not among the sources. It rebuilds the index from the edge list it is given:
  a key (node id, handle id or null, handle type) maps to the set of ids of the edges
  that touch that point. The previous index is discarded, so the model returns the new one.
\<close>

definition touches :: "lookupKey \<Rightarrow> edge \<Rightarrow> bool" where
  "touches k e = (k = (e_source e, e_sourceHandle e, Source)
                \<or> k = (e_target e, e_targetHandle e, Target))"

definition updateConnectionLookup :: "edge list \<Rightarrow> lookupKey \<Rightarrow> string set" where
  "updateConnectionLookup es = (\<lambda>k. set (map e_id (filter (touches k) es)))"

text \<open>
  Modelled from the spec: \<open>parseEdge(edge, existingEdge, defaultEdgeOptions)\<close> of the
  utility module, which is not among the sources. The edge builder takes the declared
  fields from the input and merges them with the stored record of the same id, whose
  internal fields (selection, event bindings) it keeps; a new edge starts unselected and
  without bindings. \<open>defaultEdgeOptions\<close> supplies \<open>deletable\<close> when the input leaves it
  open. The node references stay those of the stored record; the caller sets them.
\<close>

definition parseEdge ::
  "edge \<Rightarrow> graphEdge option \<Rightarrow> edgeOptions option \<Rightarrow> graphEdge" where
  "parseEdge e existingEdge defaults =
     \<lparr>ge_id = e_id e, ge_source = e_source e, ge_target = e_target e,
      ge_sourceHandle = e_sourceHandle e, ge_targetHandle = e_targetHandle e,
      ge_data = e_data e,
      ge_deletable = (case e_deletable e of
                        Some d \<Rightarrow> Some d
                      | None \<Rightarrow> (case defaults of None \<Rightarrow> None | Some opts \<Rightarrow> deo_deletable opts)),
      ge_selected = (case existingEdge of None \<Rightarrow> False | Some old \<Rightarrow> ge_selected old),
      ge_sourceNode = (case existingEdge of None \<Rightarrow> None | Some old \<Rightarrow> ge_sourceNode old),
      ge_targetNode = (case existingEdge of None \<Rightarrow> None | Some old \<Rightarrow> ge_targetNode old),
      ge_events = (case existingEdge of None \<Rightarrow> [] | Some old \<Rightarrow> ge_events old)\<rparr>"

text \<open>
  Modelled from the spec: the node builder behind \<open>createGraphNodes(nodes, currentNodes,
  findNode, triggerError)\<close> of the utility module, which is not among the sources. Each
  input node becomes a stored node with its declared fields; the internal fields come from
  the stored node of the same id when there is one, and otherwise start at their defaults
  (\<open>dimensions = {0,0}\<close>, \<open>handleBounds = {}\<close>, \<open>initialized = false\<close>, computed position at
  the declared position). A node is a parent when a node of the new collection names it.
  The \<open>Node\<close> type of the code requires an id, so id generation is not modelled.
\<close>

definition parseNode :: "node list \<Rightarrow> node \<Rightarrow> graphNode option \<Rightarrow> graphNode" where
  "parseNode nextNodes n existingNode =
     \<lparr>gn_id = n_id n, gn_type = n_type n, gn_position = n_position n, gn_data = n_data n,
      gn_parentNode = n_parentNode n, gn_deletable = n_deletable n,
      gn_computedPosition = (case existingNode of
           None \<Rightarrow> \<lparr>cpos_x = pos_x (n_position n), cpos_y = pos_y (n_position n), cpos_z = Num 0\<rparr>
         | Some old \<Rightarrow> gn_computedPosition old),
      gn_handleBounds = (case existingNode of
           None \<Rightarrow> \<lparr>hb_source = None, hb_target = None\<rparr>
         | Some old \<Rightarrow> gn_handleBounds old),
      gn_selected = (case existingNode of None \<Rightarrow> False | Some old \<Rightarrow> gn_selected old),
      gn_dimensions = (case existingNode of
           None \<Rightarrow> \<lparr>width = Num 0, height = Num 0\<rparr>
         | Some old \<Rightarrow> gn_dimensions old),
      gn_isParent = (\<exists>m \<in> set nextNodes. n_parentNode m = Some (n_id n)),
      gn_resizing = (case existingNode of None \<Rightarrow> False | Some old \<Rightarrow> gn_resizing old),
      gn_dragging = (case existingNode of None \<Rightarrow> False | Some old \<Rightarrow> gn_dragging old),
      gn_initialized = (case existingNode of None \<Rightarrow> False | Some old \<Rightarrow> gn_initialized old),
      gn_events = (case existingNode of None \<Rightarrow> [] | Some old \<Rightarrow> gn_events old)\<rparr>"

definition createGraphNodes :: "node list \<Rightarrow> (string \<Rightarrow> graphNode option) \<Rightarrow> graphNode list" where
  "createGraphNodes nextNodes lookup =
     map (\<lambda>n. parseNode nextNodes n (lookup (n_id n))) nextNodes"

section \<open>Replacing the collections\<close>

text \<open>
  The argument of \<open>setNodes\<close>, \<open>setEdges\<close> and \<open>setElements\<close>: a collection, or a function
  of the current collection.
\<close>

datatype ('cur, 'new) collectionArg = Collection "'new list" | Updater "'cur list \<Rightarrow> 'new list"

definition resolveArg :: "('cur, 'new) collectionArg \<Rightarrow> 'cur list \<Rightarrow> 'new list" where
  "resolveArg arg cur = (case arg of Collection xs \<Rightarrow> xs | Updater f \<Rightarrow> f cur)"

definition setNodes :: "(graphNode, node) collectionArg \<Rightarrow> state \<Rightarrow> state" where
  "setNodes arg st =
     (let nextNodes = resolveArg arg (nodes st)
      in if \<not> initialized st \<and> nextNodes = [] then st
         else st\<lparr>nodes := createGraphNodes nextNodes (findNode st)\<rparr>)"

text \<open>
  One round of the \<open>reduce\<close> in \<open>setEdges\<close>. The accumulator is the list of edges kept so
  far; the state is threaded along because the error hook is triggered on the way. The
  canonical collection is assigned only after the loop, so \<open>findEdge\<close> reads the old one.
\<close>

definition setEdgesStep :: "edge \<Rightarrow> state \<times> graphEdge list \<Rightarrow> state \<times> graphEdge list" where
  "setEdgesStep e acc =
     (let st = fst acc; res = snd acc;
          sourceNode = findNode st (e_source e);
          targetNode = findNode st (e_target e);
          missingSource = (sourceNode = None);
          missingTarget = (targetNode = None);
          st1 = (if missingSource \<and> missingTarget
                 then trigger (ErrorEvent (VueFlowError EDGE_SOURCE_TARGET_MISSING
                                 [e_id e, e_source e, e_target e])) st
                 else
                   (let st' = (if missingSource
                               then trigger (ErrorEvent (VueFlowError EDGE_SOURCE_MISSING
                                               [e_id e, e_source e])) st
                               else st)
                    in if missingTarget
                       then trigger (ErrorEvent (VueFlowError EDGE_TARGET_MISSING
                                       [e_id e, e_target e])) st'
                       else st'))
      in case (sourceNode, targetNode) of
           (Some s, Some t) \<Rightarrow>
             (st1, res @ [(parseEdge e (findEdge st1 (e_id e)) (defaultEdgeOptions st1))
                            \<lparr>ge_sourceNode := Some s, ge_targetNode := Some t\<rparr>])
         | _ \<Rightarrow> (st1, res))"

text \<open>The edges that pass the store's \<open>isValidConnection\<close>, when one is configured.\<close>

definition validEdges :: "edge list \<Rightarrow> state \<Rightarrow> edge list" where
  "validEdges nextEdges st =
     (case isValidConnection st of
        Some valid \<Rightarrow>
          filter (\<lambda>e. valid e (edges st) (nodes st)
                        (findNode st (e_source e)) (findNode st (e_target e)))
            nextEdges
      | None \<Rightarrow> nextEdges)"

definition setEdges :: "(graphEdge, edge) collectionArg \<Rightarrow> state \<Rightarrow> state" where
  "setEdges arg st =
     (let nextEdges = resolveArg arg (edges st)
      in if \<not> initialized st \<and> nextEdges = [] then st
         else
           (let st1 = st\<lparr>connectionLookup := updateConnectionLookup (validEdges nextEdges st)\<rparr>;
                (st2, res) = fold setEdgesStep (validEdges nextEdges st) (st1, [])
            in st2\<lparr>edges := res\<rparr>))"

definition setElements :: "(flowElement, element) collectionArg \<Rightarrow> state \<Rightarrow> state" where
  "setElements arg st =
     (let nextElements = resolveArg arg (map FlowNode (nodes st) @ map FlowEdge (edges st))
      in if \<not> initialized st \<and> nextElements = [] then st
         else setEdges (Collection (edgesOf nextElements))
                (setNodes (Collection (nodesOf nextElements)) st))"

section \<open>The diff engine\<close>

text \<open>
  Modelled from the spec: \<open>applyChanges(changes, collection)\<close> of the utility module,
  which is not among the sources. Each change is applied in turn: \<open>add\<close> appends the
  carried entity, \<open>remove\<close> drops the entity with the matching id, \<open>select\<close> sets the
  \<open>selected\<close> flag of the matching entity, \<open>dimensions\<close> overwrites the dimensions of the
  matching node and marks it initialized. A change for an id that is not there changes
  nothing.
\<close>

definition applyNodeChange :: "nodeChange \<Rightarrow> graphNode list \<Rightarrow> graphNode list" where
  "applyNodeChange c ns =
     (case c of
        NodeSelectionChange sc \<Rightarrow>
          map (\<lambda>n. if gn_id n = sc_id sc then n\<lparr>gn_selected := sc_selected sc\<rparr> else n) ns
      | NodeRemoveChange i \<Rightarrow> filter (\<lambda>n. gn_id n \<noteq> i) ns
      | NodeDimensionChange i d \<Rightarrow>
          map (\<lambda>n. if gn_id n = i then n\<lparr>gn_dimensions := d, gn_initialized := True\<rparr> else n) ns
      | NodeAddChange n \<Rightarrow> ns @ [n])"

definition applyEdgeChange :: "edgeChange \<Rightarrow> graphEdge list \<Rightarrow> graphEdge list" where
  "applyEdgeChange c es =
     (case c of
        EdgeSelectionChange sc \<Rightarrow>
          map (\<lambda>e. if ge_id e = sc_id sc then e\<lparr>ge_selected := sc_selected sc\<rparr> else e) es
      | EdgeRemoveChange i _ _ _ _ \<Rightarrow> filter (\<lambda>e. ge_id e \<noteq> i) es
      | EdgeAddChange e \<Rightarrow> es @ [e])"

text \<open>The actions \<open>applyNodeChanges\<close> and \<open>applyEdgeChanges\<close>, which change the collection in place.\<close>

definition applyNodeChanges :: "nodeChange list \<Rightarrow> state \<Rightarrow> state" where
  "applyNodeChanges changes st = st\<lparr>nodes := fold applyNodeChange changes (nodes st)\<rparr>"

definition applyEdgeChanges :: "edgeChange list \<Rightarrow> state \<Rightarrow> state" where
  "applyEdgeChanges changes st =
     (let changedEdges = fold applyEdgeChange changes (edges st)
      in st\<lparr>edges := changedEdges,
            connectionLookup := updateConnectionLookup (map asEdge changedEdges)\<rparr>)"

section \<open>Selection\<close>

text \<open>
  Modelled from the spec: \<open>getSelectionChanges(elements, selectedIds)\<close> of the utility
  module, which is not among the sources. In one pass over all nodes and edges it
  deselects everything that is not in the target set and selects the target set: an
  element whose id is among the selected ids gets a select change, every other element an
  unselect change; a node's change goes to \<open>changedNodes\<close>, an edge's to \<open>changedEdges\<close>.
\<close>

primrec getSelectionChanges ::
  "flowElement list \<Rightarrow> string list \<Rightarrow> nodeChange list \<times> edgeChange list" where
  "getSelectionChanges [] selectedIds = ([], [])"
| "getSelectionChanges (el # els) selectedIds =
     (let rest = getSelectionChanges els selectedIds
      in case el of
           FlowNode n \<Rightarrow>
             (NodeSelectionChange (createSelectionChange (gn_id n) (gn_id n \<in> set selectedIds))
                # fst rest, snd rest)
         | FlowEdge e \<Rightarrow>
             (fst rest,
              EdgeSelectionChange (createSelectionChange (ge_id e) (ge_id e \<in> set selectedIds))
                # snd rest))"

definition nodeSelectionHandler :: "graphNode list \<Rightarrow> bool \<Rightarrow> state \<Rightarrow> state" where
  "nodeSelectionHandler ns selected st =
     (let nodeIds = map gn_id ns;
          (changedNodes, changedEdges) =
            (if multiSelectionActive st
             then (map (\<lambda>nodeId. NodeSelectionChange (createSelectionChange nodeId selected)) nodeIds,
                   [])
             else getSelectionChanges (map FlowNode (nodes st) @ map FlowEdge (edges st)) nodeIds);
          st1 = (if changedNodes \<noteq> [] then trigger (NodesChange changedNodes) st else st)
      in if changedEdges \<noteq> [] then trigger (EdgesChange changedEdges) st1 else st1)"

definition addSelectedNodes :: "graphNode list \<Rightarrow> state \<Rightarrow> state" where
  "addSelectedNodes ns st = nodeSelectionHandler ns True st"

section \<open>Measuring nodes\<close>

text \<open>
  Modelled from the spec: the measurement helpers \<open>getDimensions\<close> and \<open>getHandleBounds\<close>
  of the utility module, which are not among the sources. The rendering layer supplies the
  raw measurement of a node's element: its box, and its handles for a selector at a zoom.
\<close>

record nodeElement =
  el_box :: dimensions
  el_handles :: "string \<Rightarrow> number \<Rightarrow> handleElement list option"

record updateNodeDimensionsParams =
  u_id :: string
  u_nodeElement :: nodeElement
  u_forceUpdate :: bool

definition getDimensions :: "nodeElement \<Rightarrow> dimensions" where
  "getDimensions el = el_box el"

definition getHandleBounds :: "string \<Rightarrow> nodeElement \<Rightarrow> number \<Rightarrow> handleElement list option" where
  "getHandleBounds selector el zoom = el_handles el selector zoom"

text \<open>
  Writing to the node object that \<open>findNode\<close> returned: of the stored nodes with that id
  it is the last one.
\<close>

primrec updateFirst :: "('a \<Rightarrow> bool) \<Rightarrow> ('a \<Rightarrow> 'a) \<Rightarrow> 'a list \<Rightarrow> 'a list" where
  "updateFirst p f [] = []"
| "updateFirst p f (y # ys) = (if p y then f y # ys else y # updateFirst p f ys)"

definition mutateNode :: "string \<Rightarrow> (graphNode \<Rightarrow> graphNode) \<Rightarrow> state \<Rightarrow> state" where
  "mutateNode i f st = st\<lparr>nodes := rev (updateFirst (\<lambda>n. gn_id n = i) f (rev (nodes st)))\<rparr>"

definition updateNodeDimensionsStep ::
  "number \<Rightarrow> updateNodeDimensionsParams \<Rightarrow> state \<times> nodeChange list \<Rightarrow> state \<times> nodeChange list" where
  "updateNodeDimensionsStep zoom update acc =
     (let st = fst acc; res = snd acc
      in case findNode st (u_id update) of
           None \<Rightarrow> (st, res)
         | Some n \<Rightarrow>
             (let dims = getDimensions (u_nodeElement update);
                  doUpdate = (truthy (width dims) \<and> truthy (height dims)
                     \<and> (strictNeq (width (gn_dimensions n)) (width dims)
                        \<or> strictNeq (height (gn_dimensions n)) (height dims)
                        \<or> u_forceUpdate update))
              in if doUpdate
                 then (mutateNode (gn_id n)
                         (\<lambda>m. m\<lparr>gn_handleBounds :=
                                   \<lparr>hb_source = getHandleBounds ''.source'' (u_nodeElement update) zoom,
                                    hb_target = getHandleBounds ''.target'' (u_nodeElement update) zoom\<rparr>,
                                 gn_dimensions := dims,
                                 gn_initialized := True\<rparr>) st,
                       res @ [NodeDimensionChange (gn_id n) dims])
                 else (st, res)))"

text \<open>
  \<open>updateNodeDimensions\<close>. The deferred \<open>fitView\<close> of the next tick is recorded as
  scheduled; it does not run inside the action.
\<close>

definition updateNodeDimensions :: "updateNodeDimensionsParams list \<Rightarrow> state \<Rightarrow> state" where
  "updateNodeDimensions updates st =
     (case vueFlowRef st of
        None \<Rightarrow> st
      | Some flowElement \<Rightarrow>
          (case transformationPane flowElement of
             None \<Rightarrow> st
           | Some zoom \<Rightarrow>
               (let (st1, changes) = fold (updateNodeDimensionsStep zoom) updates (st, []);
                    st2 = (if \<not> fitViewOnInitDone st1 \<and> fitViewOnInit st1
                           then st1\<lparr>fitViewScheduled := True\<rparr> else st1)
                in if changes \<noteq> [] then trigger (NodesChange changes) st2 else st2)))"

section \<open>Removing nodes\<close>

text \<open>
  Modelled from the spec: \<open>getConnectedEdges(nodes, edges)\<close> of the utility module, which
  is not among the sources. It scans the edge collection and keeps every edge incident on
  one of the given nodes, as source or as target.
\<close>

definition getConnectedEdgesBase :: "node list \<Rightarrow> graphEdge list \<Rightarrow> graphEdge list" where
  "getConnectedEdgesBase ns es =
     filter (\<lambda>e. ge_source e \<in> set (map n_id ns) \<or> ge_target e \<in> set (map n_id ns)) es"

definition getConnectedEdges :: "node list \<Rightarrow> state \<Rightarrow> graphEdge list" where
  "getConnectedEdges ns st = getConnectedEdgesBase ns (edges st)"

text \<open>An item handed to \<open>removeNodes\<close>: a node id or a node record.\<close>

datatype nodeItem = ById string | ByNode node

text \<open>The two arrays that \<open>removeNodes\<close> fills before it triggers the hooks.\<close>

record removalChanges =
  nodeChanges :: "nodeChange list"
  edgeChanges :: "edgeChange list"

definition createEdgeRemovalChanges :: "state \<Rightarrow> node list \<Rightarrow> removalChanges \<Rightarrow> removalChanges" where
  "createEdgeRemovalChanges st ns acc =
     (let connections =
            filter (\<lambda>e. case ge_deletable e of Some d \<Rightarrow> d | None \<Rightarrow> True) (getConnectedEdges ns st)
      in acc\<lparr>edgeChanges := edgeChanges acc @
               map (\<lambda>connection. createEdgeRemoveChange (ge_id connection) (ge_source connection)
                      (ge_target connection) (ge_sourceHandle connection)
                      (ge_targetHandle connection)) connections\<rparr>)"

text \<open>
  \<open>createChildrenRemovalChanges\<close> calls itself for every child, with nothing that stops it
  on a cycle of parent references. The first argument bounds the depth of the calls;
  \<open>None\<close> is the call that does not come back.
\<close>

fun createChildrenRemovalChanges ::
  "nat \<Rightarrow> state \<Rightarrow> bool \<Rightarrow> string \<Rightarrow> removalChanges \<Rightarrow> removalChanges option" where
  "createChildrenRemovalChanges 0 st removeConnectedEdges i acc = None"
| "createChildrenRemovalChanges (Suc depth) st removeConnectedEdges i acc =
     (let children = filter (\<lambda>n. gn_parentNode n = Some i) (nodes st)
      in if children \<noteq> []
         then
           (let acc1 = acc\<lparr>nodeChanges := nodeChanges acc @
                            map (\<lambda>n. createNodeRemoveChange (gn_id n)) children\<rparr>;
                acc2 = (if removeConnectedEdges
                        then createEdgeRemovalChanges st (map asNode children) acc1
                        else acc1)
            in fold (\<lambda>child r. case r of
                        None \<Rightarrow> None
                      | Some a \<Rightarrow>
                          createChildrenRemovalChanges depth st removeConnectedEdges (gn_id child) a)
                 children (Some acc2))
         else Some acc)"

text \<open>\<open>typeof item === 'string' ? findNode(item) : item\<close>, read as a \<open>Node\<close>.\<close>

definition currNodeOf :: "state \<Rightarrow> nodeItem \<Rightarrow> node option" where
  "currNodeOf st item =
     (case item of ById i \<Rightarrow> map_option asNode (findNode st i) | ByNode n \<Rightarrow> Some n)"

definition removeNodesStep ::
  "nat \<Rightarrow> state \<Rightarrow> bool \<Rightarrow> bool \<Rightarrow> nodeItem \<Rightarrow> removalChanges option \<Rightarrow> removalChanges option" where
  "removeNodesStep depth st removeConnectedEdges removeChildren item r =
     (case r of
        None \<Rightarrow> None
      | Some acc \<Rightarrow>
          (case currNodeOf st item of
             None \<Rightarrow> Some acc
           | Some currNode \<Rightarrow>
               if (case n_deletable currNode of Some d \<Rightarrow> \<not> d | None \<Rightarrow> False) then Some acc
               else
                 (let acc1 = acc\<lparr>nodeChanges := nodeChanges acc @
                                  [createNodeRemoveChange (n_id currNode)]\<rparr>;
                      acc2 = (if removeConnectedEdges
                              then createEdgeRemovalChanges st [currNode] acc1
                              else acc1)
                  in if removeChildren
                     then createChildrenRemovalChanges depth st removeConnectedEdges
                            (n_id currNode) acc2
                     else Some acc2)))"

text \<open>
  \<open>removeNodes(nodes, removeConnectedEdges, removeChildren)\<close>; a single item is the
  collection of that one item. The result is \<open>None\<close> when the recursion over the children
  does not come back within the depth.
\<close>

definition removeNodes ::
  "nat \<Rightarrow> (graphNode, nodeItem) collectionArg \<Rightarrow> bool \<Rightarrow> bool \<Rightarrow> state \<Rightarrow> state option" where
  "removeNodes depth arg removeConnectedEdges removeChildren st =
     (let nodesToRemove = resolveArg arg (nodes st)
      in case fold (removeNodesStep depth st removeConnectedEdges removeChildren) nodesToRemove
                (Some \<lparr>nodeChanges = [], edgeChanges = []\<rparr>) of
           None \<Rightarrow> None
         | Some acc \<Rightarrow>
             (let st1 = (if edgeChanges acc \<noteq> []
                         then trigger (EdgesChange (edgeChanges acc)) st else st)
              in Some (if nodeChanges acc \<noteq> []
                       then trigger (NodesChange (nodeChanges acc)) st1 else st1)))"

section \<open>Export and import\<close>


text \<open>
  \<open>JSON.parse(JSON.stringify(v))\<close> on the values of a snapshot. A \<open>NaN\<close> is written as
  \<open>null\<close> and read back as \<open>null\<close>; a finite number and \<open>null\<close> come back as they are.
  Strings, booleans and the \<open>json\<close> payload come back as they are, and an absent optional
  field stays absent. So the copy of a node differs from the node in its position at most,
  and the copy of an edge, which holds no number, is the edge.
\<close>

definition jsonNumber :: "number \<Rightarrow> number" where
  "jsonNumber v = (case v of NaN \<Rightarrow> Null | Num r \<Rightarrow> Num r | Null \<Rightarrow> Null)"

definition jsonPosition :: "xyPosition \<Rightarrow> xyPosition" where
  "jsonPosition p = \<lparr>pos_x = jsonNumber (pos_x p), pos_y = jsonNumber (pos_y p)\<rparr>"


definition jsonNode :: "node \<Rightarrow> node" where
  "jsonNode n = n\<lparr>n_position := jsonPosition (n_position n)\<rparr>"





section \<open>Concrete stores\<close>

text \<open>A store as it is before anything is loaded, and short forms for nodes and edges.\<close>

definition emptyStore :: state where
  "emptyStore =
     \<lparr>nodes = [], edges = [], initialized = False, multiSelectionActive = False,
      isValidConnection = None, defaultEdgeOptions = None,
      connectionLookup = (\<lambda>k. {}),
      connectionStartHandle = None, connectionClickStartHandle = None,
      connectionEndHandle = None, connectionStatus = None,
      connectionPosition = \<lparr>pos_x = NaN, pos_y = NaN\<rparr>,
      vueFlowRef = None, fitViewOnInit = False, fitViewOnInitDone = False,
      fitViewScheduled = False,
      viewport = \<lparr>vp_x = Num 0, vp_y = Num 0, vp_zoom = Num 1\<rparr>,
      viewportRequest = None, triggered = []\<rparr>"

definition plainNode :: "string \<Rightarrow> string option \<Rightarrow> bool option \<Rightarrow> node" where
  "plainNode i parent deletable =
     \<lparr>n_id = i, n_type = None, n_position = \<lparr>pos_x = Num 0, pos_y = Num 0\<rparr>,
      n_data = JNull, n_parentNode = parent, n_deletable = deletable\<rparr>"

definition storedNode :: "string \<Rightarrow> string option \<Rightarrow> bool option \<Rightarrow> graphNode" where
  "storedNode i parent deletable = parseNode [] (plainNode i parent deletable) None"

definition plainEdge :: "string \<Rightarrow> string \<Rightarrow> string \<Rightarrow> bool option \<Rightarrow> edge" where
  "plainEdge i src tgt deletable =
     \<lparr>e_id = i, e_source = src, e_target = tgt, e_sourceHandle = None,
      e_targetHandle = None, e_data = JNull, e_deletable = deletable\<rparr>"

definition storedEdge :: "string \<Rightarrow> string \<Rightarrow> string \<Rightarrow> bool option \<Rightarrow> graphEdge" where
  "storedEdge i src tgt deletable = parseEdge (plainEdge i src tgt deletable) None None"

section \<open>Vocabulary of the properties\<close>

text \<open>Both endpoints of an edge resolve to a stored node.\<close>

definition resolvable :: "state \<Rightarrow> edge \<Rightarrow> bool" where
  "resolvable st e = (findNode st (e_source e) \<noteq> None \<and> findNode st (e_target e) \<noteq> None)"

text \<open>
  The error that belongs to an edge with an unresolvable endpoint: both missing, only the
  source missing, only the target missing.
\<close>

definition endpointError :: "state \<Rightarrow> edge \<Rightarrow> vueFlowError" where
  "endpointError st e =
     (if findNode st (e_source e) = None \<and> findNode st (e_target e) = None
      then VueFlowError EDGE_SOURCE_TARGET_MISSING [e_id e, e_source e, e_target e]
      else if findNode st (e_source e) = None
      then VueFlowError EDGE_SOURCE_MISSING [e_id e, e_source e]
      else VueFlowError EDGE_TARGET_MISSING [e_id e, e_target e])"

text \<open>The record that \<open>setEdges\<close> stores for an edge it keeps.\<close>

definition storedForm :: "state \<Rightarrow> edge \<Rightarrow> graphEdge" where
  "storedForm st e = (parseEdge e (findEdge st (e_id e)) (defaultEdgeOptions st))
       \<lparr>ge_sourceNode := findNode st (e_source e), ge_targetNode := findNode st (e_target e)\<rparr>"

text \<open>
  The transitive descendants of the node \<open>i\<close>: the stored nodes whose chain of
  \<open>parentNode\<close> references reaches \<open>i\<close>.
\<close>

inductive descendant :: "graphNode list \<Rightarrow> string \<Rightarrow> graphNode \<Rightarrow> bool" for ns where
  child: "n \<in> set ns \<Longrightarrow> gn_parentNode n = Some i \<Longrightarrow> descendant ns i n"
| below: "c \<in> set ns \<Longrightarrow> gn_parentNode c = Some i \<Longrightarrow> descendant ns (gn_id c) n
          \<Longrightarrow> descendant ns i n"

text \<open>An edge may be removed along with its node unless \<open>deletable\<close> is \<open>false\<close>.\<close>

definition deletableEdge :: "graphEdge \<Rightarrow> bool" where
  "deletableEdge e = (case ge_deletable e of Some d \<Rightarrow> d | None \<Rightarrow> True)"

definition incident :: "graphEdge \<Rightarrow> string \<Rightarrow> bool" where
  "incident e i = (ge_source e = i \<or> ge_target e = i)"

text \<open>The remove change of a stored edge.\<close>

definition removalOf :: "graphEdge \<Rightarrow> edgeChange" where
  "removalOf e = createEdgeRemoveChange (ge_id e) (ge_source e) (ge_target e)
                   (ge_sourceHandle e) (ge_targetHandle e)"

text \<open>Pushing further changes onto the two arrays.\<close>

definition pushed :: "removalChanges \<Rightarrow> nodeChange list \<Rightarrow> edgeChange list \<Rightarrow> removalChanges" where
  "pushed acc ncs ecs =
     \<lparr>nodeChanges = nodeChanges acc @ ncs, edgeChanges = edgeChanges acc @ ecs\<rparr>"

text \<open>An initialized store that holds the single node \<open>a\<close>.\<close>

definition storeA :: state where
  "storeA = emptyStore\<lparr>initialized := True, nodes := [storedNode ''a'' None None]\<rparr>"

text \<open>A store with a rendered pane whose node \<open>a\<close> measures 10 by 20, and a measurement of \<open>a\<close>.\<close>

definition storeMeasured :: state where
  "storeMeasured =
     emptyStore\<lparr>vueFlowRef := Some \<lparr>transformationPane = Some (Num 1)\<rparr>,
       nodes := [(storedNode ''a'' None None)
                   \<lparr>gn_dimensions := \<lparr>width = Num 10, height = Num 20\<rparr>\<rparr>]\<rparr>"

definition measurement :: "real \<Rightarrow> real \<Rightarrow> bool \<Rightarrow> updateNodeDimensionsParams" where
  "measurement w h force =
     \<lparr>u_id = ''a'',
      u_nodeElement = \<lparr>el_box = \<lparr>width = Num w, height = Num h\<rparr>,
                       el_handles = (\<lambda>selector zoom. None)\<rparr>,
      u_forceUpdate = force\<rparr>"

text \<open>
  The selection changes that leave exactly the elements with an id in \<open>ids\<close> selected: a
  select change for each of those, an unselect change for every other element.
\<close>

definition nodeSelectionDiff :: "string set \<Rightarrow> graphNode list \<Rightarrow> nodeChange list" where
  "nodeSelectionDiff ids ns =
     map (\<lambda>n. NodeSelectionChange (SelectionChange (gn_id n) (gn_id n \<in> ids))) ns"

definition edgeSelectionDiff :: "string set \<Rightarrow> graphEdge list \<Rightarrow> edgeChange list" where
  "edgeSelectionDiff ids es =
     map (\<lambda>e. EdgeSelectionChange (SelectionChange (ge_id e) (ge_id e \<in> ids))) es"

text \<open>
  An initialized store with the nodes \<open>a\<close> (selected) and \<open>b\<close> and the selected edge
  \<open>e1\<close> from \<open>a\<close> to \<open>b\<close>.
\<close>

definition storeAB :: state where
  "storeAB =
     emptyStore\<lparr>initialized := True,
       nodes := [(storedNode ''a'' None None)\<lparr>gn_selected := True\<rparr>, storedNode ''b'' None None],
       edges := [(storedEdge ''e1'' ''a'' ''b'' None)\<lparr>ge_selected := True\<rparr>]\<rparr>"

text \<open>The set of descendants of a node, and the remove changes of a cascade.\<close>

definition descendants :: "state \<Rightarrow> string \<Rightarrow> graphNode set" where
  "descendants st i = {n. descendant (nodes st) i n}"

definition nodeRemovals :: "string set \<Rightarrow> nodeChange set" where
  "nodeRemovals J = createNodeRemoveChange ` J"

text \<open>
  The remove changes of the stored edges that are incident on a node with an id in \<open>J\<close>
  and whose \<open>deletable\<close> flag is not \<open>false\<close>.
\<close>

definition edgeRemovals :: "state \<Rightarrow> string set \<Rightarrow> edgeChange set" where
  "edgeRemovals st J =
     removalOf ` {e \<in> set (edges st). deletableEdge e \<and> (\<exists>j \<in> J. incident e j)}"

text \<open>
  The ids of the nodes that go when the node \<open>i\<close> is removed: \<open>i\<close> itself and, with
  \<open>removeChildren\<close>, its descendants.
\<close>

definition cascadeIds :: "state \<Rightarrow> bool \<Rightarrow> string \<Rightarrow> string set" where
  "cascadeIds st removeChildren i =
     insert i (if removeChildren then gn_id ` descendants st i else {})"

text \<open>
  The same for an item of \<open>removeNodes\<close>: nothing goes when the item does not resolve or
  the node's \<open>deletable\<close> flag is \<open>false\<close>.
\<close>

definition itemIds :: "state \<Rightarrow> bool \<Rightarrow> nodeItem \<Rightarrow> string set" where
  "itemIds st removeChildren item =
     (case currNodeOf st item of
        None \<Rightarrow> {}
      | Some n \<Rightarrow> if n_deletable n = Some False then {}
                  else cascadeIds st removeChildren (n_id n))"

text \<open>
  The parent references are well-founded under \<open>rank\<close>: a child ranks below its parent.
\<close>

definition parentsRanked :: "(string \<Rightarrow> nat) \<Rightarrow> state \<Rightarrow> bool" where
  "parentsRanked rank st =
     (\<forall>n \<in> set (nodes st). case gn_parentNode n of
                               None \<Rightarrow> True
                             | Some p \<Rightarrow> rank (gn_id n) < rank p)"

text \<open>
  An initialized store with the chain of nodes \<open>p\<close>, \<open>c\<close> (child of \<open>p\<close>), \<open>g\<close> (child of
  \<open>c\<close>) and the free node \<open>x\<close>; the edges \<open>e1\<close> from \<open>p\<close> to \<open>x\<close>, \<open>e2\<close> from \<open>x\<close> to \<open>g\<close>,
  \<open>e3\<close> from \<open>x\<close> to \<open>x\<close>, and \<open>e4\<close> from \<open>c\<close> to \<open>x\<close>, which is not deletable. A rank for its
  parent references.
\<close>

definition storeTree :: state where
  "storeTree =
     emptyStore\<lparr>initialized := True,
       nodes := [storedNode ''p'' None None, storedNode ''c'' (Some ''p'') None,
                 storedNode ''g'' (Some ''c'') None, storedNode ''x'' None None],
       edges := [storedEdge ''e1'' ''p'' ''x'' None, storedEdge ''e2'' ''x'' ''g'' None,
                 storedEdge ''e3'' ''x'' ''x'' None, storedEdge ''e4'' ''c'' ''x'' (Some False)]\<rparr>"

definition rankTree :: "string \<Rightarrow> nat" where
  "rankTree i = (if i = ''p'' then 2 else if i = ''c'' then 1 else 0)"

text \<open>
  An initialized store whose only node \<open>k\<close> is not deletable, and one whose only node \<open>s\<close>
  names itself as its parent.
\<close>

definition storeLocked :: state where
  "storeLocked = emptyStore\<lparr>initialized := True, nodes := [storedNode ''k'' None (Some False)]\<rparr>"

definition storeLoop :: state where
  "storeLoop = emptyStore\<lparr>initialized := True, nodes := [storedNode ''s'' (Some ''s'') None]\<rparr>"

text \<open>
  Two initialized stores with the node \<open>a\<close>: one whose edge \<open>e1\<close> leads to a node \<open>b\<close>
  that is not there, and one whose edge \<open>e1\<close> is a loop on \<open>a\<close> and whose
  \<open>isValidConnection\<close> rejects every edge.
\<close>

definition storeDangling :: state where
  "storeDangling = storeA\<lparr>edges := [storedEdge ''e1'' ''a'' ''b'' None]\<rparr>"

definition storeStrict :: state where
  "storeStrict =
     storeA\<lparr>edges := [storedEdge ''e1'' ''a'' ''a'' None],
            isValidConnection := Some (\<lambda>e es ns src tgt. False)\<rparr>"

text \<open>An initialized store with the nodes \<open>a\<close> and \<open>b\<close> and the edge \<open>e1\<close> from \<open>a\<close> to \<open>b\<close>.\<close>

definition storePair :: state where
  "storePair =
     emptyStore\<lparr>initialized := True,
       nodes := [storedNode ''a'' None None, storedNode ''b'' None None],
       edges := [storedEdge ''e1'' ''a'' ''b'' None]\<rparr>"

text \<open>The store with the single node \<open>a\<close>, whose position has \<open>NaN\<close> for its x.\<close>

definition storeNaN :: state where
  "storeNaN =
     storeA\<lparr>nodes := [(storedNode ''a'' None None)
                          \<lparr>gn_position := \<lparr>pos_x = NaN, pos_y = Num 0\<rparr>\<rparr>]\<rparr>"

section \<open>Lookups and the deprecated getters\<close>

lemma storedNode_fields [simp]:
  "gn_id (storedNode i parent deletable) = i"
  "gn_parentNode (storedNode i parent deletable) = parent"
  "gn_deletable (storedNode i parent deletable) = deletable"
  "gn_selected (storedNode i parent deletable) = False"
  by (simp_all add: storedNode_def parseNode_def plainNode_def)

lemma storedEdge_fields [simp]:
  "ge_id (storedEdge i src tgt deletable) = i"
  "ge_source (storedEdge i src tgt deletable) = src"
  "ge_target (storedEdge i src tgt deletable) = tgt"
  "ge_sourceHandle (storedEdge i src tgt deletable) = None"
  "ge_targetHandle (storedEdge i src tgt deletable) = None"
  "ge_deletable (storedEdge i src tgt deletable) = deletable"
  "ge_selected (storedEdge i src tgt deletable) = False"
  by (simp_all add: storedEdge_def parseEdge_def plainEdge_def split: option.splits)

lemma plainEdge_fields [simp]:
  "e_id (plainEdge i src tgt deletable) = i"
  "e_source (plainEdge i src tgt deletable) = src"
  "e_target (plainEdge i src tgt deletable) = tgt"
  "e_sourceHandle (plainEdge i src tgt deletable) = None"
  "e_targetHandle (plainEdge i src tgt deletable) = None"
  "e_deletable (plainEdge i src tgt deletable) = deletable"
  by (simp_all add: plainEdge_def)

lemma plainNode_fields [simp]:
  "n_id (plainNode i parent deletable) = i"
  "n_parentNode (plainNode i parent deletable) = parent"
  "n_deletable (plainNode i parent deletable) = deletable"
  by (simp_all add: plainNode_def)

lemma emptyStore_fields [simp]:
  "nodes emptyStore = []"
  "edges emptyStore = []"
  "initialized emptyStore = False"
  "multiSelectionActive emptyStore = False"
  "isValidConnection emptyStore = None"
  "defaultEdgeOptions emptyStore = None"
  "vueFlowRef emptyStore = None"
  "triggered emptyStore = []"
  by (simp_all add: emptyStore_def)

lemma findNode_cong: "nodes st' = nodes st \<Longrightarrow> findNode st' = findNode st"
  by (rule ext) (simp add: findNode_def nodesMap_def)

lemma findEdge_cong: "edges st' = edges st \<Longrightarrow> findEdge st' = findEdge st"
  by (rule ext) (simp add: findEdge_def edgesMap_def)

lemma findNode_SomeD: "findNode st i = Some n \<Longrightarrow> n \<in> set (nodes st) \<and> gn_id n = i"
  by (auto simp: findNode_def nodesMap_def split: if_splits dest!: map_of_SomeD)

text \<open>
  C7, as amended. For every non-empty id the deprecated getter \<open>getNode\<close> returns what
  \<open>findNode\<close> returns, and \<open>getEdge\<close> what \<open>findEdge\<close> returns. The empty id is excluded:
  there \<open>findNode\<close> and \<open>findEdge\<close> answer \<open>undefined\<close> without looking into the map.
\<close>

theorem getters_agree_on_nonempty_id:
  "i \<noteq> [] \<Longrightarrow> getNode st i = findNode st i \<and> getEdge st i = findEdge st i"
  by (simp add: getNode_def findNode_def getEdge_def findEdge_def)

theorem getters_agree_on_nonempty_id_witness:
  "''a'' \<noteq> []
   \<and> getNode (emptyStore\<lparr>nodes := [storedNode ''a'' None None]\<rparr>) ''a''
       = findNode (emptyStore\<lparr>nodes := [storedNode ''a'' None None]\<rparr>) ''a''
   \<and> findNode (emptyStore\<lparr>nodes := [storedNode ''a'' None None]\<rparr>) ''a''
       = Some (storedNode ''a'' None None)"
  using getters_agree_on_nonempty_id [of "''a''" "emptyStore\<lparr>nodes := [storedNode ''a'' None None]\<rparr>"]
  by (simp add: findNode_def nodesMap_def)

text \<open>
  C7 as stated fails at the empty id: in a store that holds a node with the id \<open>''\<close>,
  \<open>getNode('')\<close> returns that node and \<open>findNode('')\<close> returns \<open>undefined\<close>.
\<close>

theorem getNode_findNode_differ_on_empty_id:
  "getNode (emptyStore\<lparr>nodes := [storedNode [] None None]\<rparr>) []
     = Some (storedNode [] None None)
   \<and> findNode (emptyStore\<lparr>nodes := [storedNode [] None None]\<rparr>) [] = None"
  by (simp add: getNode_def findNode_def nodesMap_def)

section \<open>The connection gesture\<close>

text \<open>
  C8. \<open>endConnection\<close> always resets the shared gesture fields: the connection position
  becomes \<open>NaN\<close> in both coordinates, the end handle and the status become null. Ending a
  click gesture clears the click start handle and leaves the drag start handle as it was;
  ending a drag gesture clears the drag start handle and leaves the click start handle as
  it was. Nodes, edges and triggered events are not touched.
\<close>

theorem endConnection_resets:
  "connectionPosition (endConnection isClick st) = \<lparr>pos_x = NaN, pos_y = NaN\<rparr>
   \<and> connectionEndHandle (endConnection isClick st) = None
   \<and> connectionStatus (endConnection isClick st) = None
   \<and> connectionClickStartHandle (endConnection True st) = None
   \<and> connectionStartHandle (endConnection True st) = connectionStartHandle st
   \<and> connectionStartHandle (endConnection False st) = None
   \<and> connectionClickStartHandle (endConnection False st) = connectionClickStartHandle st
   \<and> nodes (endConnection isClick st) = nodes st
   \<and> edges (endConnection isClick st) = edges st
   \<and> triggered (endConnection isClick st) = triggered st"
  by (simp add: endConnection_def Let_def)

text \<open>
  A click start and a drag start are kept in separate fields: starting one leaves the
  start handle of the other as it was.
\<close>

lemma startConnection_separate_fields:
  "connectionClickStartHandle (startConnection h p True st) = Some h
   \<and> connectionStartHandle (startConnection h p True st) = connectionStartHandle st
   \<and> connectionStartHandle (startConnection h p False st) = Some h
   \<and> connectionClickStartHandle (startConnection h p False st) = connectionClickStartHandle st"
  by (simp add: startConnection_def Let_def split: option.splits)

section \<open>Replacing the collections before the store is initialized\<close>

text \<open>
  C9. In a store that is not initialized, \<open>setNodes\<close>, \<open>setEdges\<close> and \<open>setElements\<close> with
  an empty collection (given as such or returned by the update function) return the store
  as it was: the same nodes, the same edges, no event triggered.
\<close>

theorem set_empty_before_init_is_noop:
  assumes "\<not> initialized st"
  shows "(resolveArg nArg (nodes st) = [] \<longrightarrow> setNodes nArg st = st)
       \<and> (resolveArg eArg (edges st) = [] \<longrightarrow> setEdges eArg st = st)
       \<and> (resolveArg elArg (map FlowNode (nodes st) @ map FlowEdge (edges st)) = []
            \<longrightarrow> setElements elArg st = st)"
  using assms by (simp add: setNodes_def setEdges_def setElements_def Let_def)

theorem set_empty_before_init_is_noop_witness:
  "\<not> initialized emptyStore
   \<and> setNodes (Collection []) emptyStore = emptyStore
   \<and> setEdges (Updater (\<lambda>es. [])) emptyStore = emptyStore
   \<and> setElements (Collection []) emptyStore = emptyStore"
  using set_empty_before_init_is_noop [of emptyStore "Collection []" "Updater (\<lambda>es. [])"
          "Collection []"]
  by (simp add: resolveArg_def emptyStore_def)

section \<open>Replacing the edges\<close>

lemma storeA_fields [simp]:
  "initialized storeA"
  "nodes storeA = [storedNode ''a'' None None]"
  "edges storeA = []"
  "triggered storeA = []"
  "isValidConnection storeA = None"
  by (simp_all add: storeA_def)

lemma findEdge_trigger [simp]: "findEdge (trigger ev st) = findEdge st"
  by (rule ext) (simp add: trigger_def findEdge_def edgesMap_def)

lemma findNode_trigger [simp]: "findNode (trigger ev st) = findNode st"
  by (rule ext) (simp add: trigger_def findNode_def nodesMap_def)

lemma defaultEdgeOptions_trigger [simp]:
  "defaultEdgeOptions (trigger ev st) = defaultEdgeOptions st"
  by (simp add: trigger_def)

text \<open>One round of the loop either keeps the edge or reports it, never both.\<close>

lemma setEdgesStep_eq:
  "setEdgesStep e (st, res) =
     (if resolvable st e then (st, res @ [storedForm st e])
      else (trigger (ErrorEvent (endpointError st e)) st, res))"
proof (cases "findNode st (e_source e)")
  case None
  then show ?thesis
    by (cases "findNode st (e_target e)")
       (simp_all add: setEdgesStep_def resolvable_def endpointError_def Let_def)
next
  case (Some s)
  then show ?thesis
    by (cases "findNode st (e_target e)")
       (simp_all add: setEdgesStep_def resolvable_def endpointError_def storedForm_def Let_def)
qed

lemma trigger_frame [simp]:
  "resolvable (trigger ev st) = resolvable st"
  "endpointError (trigger ev st) = endpointError st"
  "storedForm (trigger ev st) = storedForm st"
  by (rule ext, simp add: resolvable_def endpointError_def storedForm_def)+

lemma trigger_trigger:
  "trigger ev st\<lparr>triggered := triggered (trigger ev st) @ xs\<rparr>
     = st\<lparr>triggered := triggered st @ ev # xs\<rparr>"
  by (simp add: trigger_def)

lemma setEdgesStep_fold:
  "fold setEdgesStep es (st, res) =
     (st\<lparr>triggered := triggered st @
            map (\<lambda>e. ErrorEvent (endpointError st e)) (filter (\<lambda>e. \<not> resolvable st e) es)\<rparr>,
      res @ map (storedForm st) (filter (resolvable st) es))"
proof (induction es arbitrary: st res)
  case Nil
  show ?case by simp
next
  case (Cons e es)
  show ?case
  proof (cases "resolvable st e")
    case True
    then show ?thesis by (simp add: setEdgesStep_eq Cons.IH)
  next
    case False
    then show ?thesis by (simp add: setEdgesStep_eq Cons.IH trigger_trigger)
  qed
qed

lemma lookup_frame [simp]:
  "resolvable (st\<lparr>connectionLookup := c\<rparr>) = resolvable st"
  "endpointError (st\<lparr>connectionLookup := c\<rparr>) = endpointError st"
  "storedForm (st\<lparr>connectionLookup := c\<rparr>) = storedForm st"
  by (rule ext, simp add: resolvable_def endpointError_def storedForm_def
        findNode_def nodesMap_def findEdge_def edgesMap_def)+

text \<open>What \<open>setEdges\<close> does once it is past its guard.\<close>

lemma setEdges_eq:
  "initialized st \<or> resolveArg arg (edges st) \<noteq> [] \<Longrightarrow>
   setEdges arg st =
     st\<lparr>connectionLookup := updateConnectionLookup (validEdges (resolveArg arg (edges st)) st),
        triggered := triggered st @ map (\<lambda>e. ErrorEvent (endpointError st e))
           (filter (\<lambda>e. \<not> resolvable st e) (validEdges (resolveArg arg (edges st)) st)),
        edges := map (storedForm st)
           (filter (resolvable st) (validEdges (resolveArg arg (edges st)) st))\<rparr>"
proof -
  assume "initialized st \<or> resolveArg arg (edges st) \<noteq> []"
  then have "\<not> (\<not> initialized st \<and> resolveArg arg (edges st) = [])" by blast
  then show ?thesis
    by (simp add: setEdges_def Let_def setEdgesStep_fold del: de_Morgan_conj)
qed

lemma storedForm_fields [simp]:
  "ge_id (storedForm st e) = e_id e"
  "ge_source (storedForm st e) = e_source e"
  "ge_target (storedForm st e) = e_target e"
  "ge_data (storedForm st e) = e_data e"
  "ge_sourceHandle (storedForm st e) = e_sourceHandle e"
  "ge_targetHandle (storedForm st e) = e_targetHandle e"
  "ge_sourceNode (storedForm st e) = findNode st (e_source e)"
  "ge_targetNode (storedForm st e) = findNode st (e_target e)"
  by (simp_all add: storedForm_def parseEdge_def)

text \<open>
  C1. Let \<open>setEdges\<close> run past its guard (the store is initialized or the collection is
  not empty), and let \<open>V\<close> be the edges of the collection that pass \<open>isValidConnection\<close>
  (all of them when none is configured). Then every edge that is kept has a source and a
  target that \<open>findNode\<close> resolves to a node of the store, which the edge holds as
  \<open>sourceNode\<close> and \<open>targetNode\<close>; the node collection is unchanged; the kept edges are
  the edges of \<open>V\<close> with both endpoints resolvable, in order; and the events triggered are
  one error per dropped edge of \<open>V\<close>, in order, of the kind \<open>EDGE_SOURCE_MISSING\<close>,
  \<open>EDGE_TARGET_MISSING\<close> or \<open>EDGE_SOURCE_TARGET_MISSING\<close> according to which endpoints
  are missing.
\<close>

theorem setEdges_keeps_resolvable_edges:
  assumes "initialized st \<or> resolveArg arg (edges st) \<noteq> []"
  shows "(\<forall>g \<in> set (edges (setEdges arg st)).
            (\<exists>s \<in> set (nodes (setEdges arg st)). gn_id s = ge_source g
                 \<and> findNode (setEdges arg st) (ge_source g) = Some s \<and> ge_sourceNode g = Some s)
          \<and> (\<exists>t \<in> set (nodes (setEdges arg st)). gn_id t = ge_target g
                 \<and> findNode (setEdges arg st) (ge_target g) = Some t \<and> ge_targetNode g = Some t))
       \<and> nodes (setEdges arg st) = nodes st
       \<and> map ge_id (edges (setEdges arg st)) =
           map e_id (filter (resolvable st) (validEdges (resolveArg arg (edges st)) st))
       \<and> triggered (setEdges arg st) = triggered st @
           map (\<lambda>e. ErrorEvent (endpointError st e))
             (filter (\<lambda>e. \<not> resolvable st e) (validEdges (resolveArg arg (edges st)) st))"
proof -
  let ?V = "validEdges (resolveArg arg (edges st)) st"
  note eq = setEdges_eq [OF assms]
  have ns: "nodes (setEdges arg st) = nodes st"
    by (simp add: eq)
  have n: "findNode (setEdges arg st) = findNode st"
    by (rule findNode_cong) (rule ns)
  have es: "edges (setEdges arg st) = map (storedForm st) (filter (resolvable st) ?V)"
    by (simp add: eq)
  have tr: "triggered (setEdges arg st) = triggered st @
           map (\<lambda>e. ErrorEvent (endpointError st e)) (filter (\<lambda>e. \<not> resolvable st e) ?V)"
    by (simp add: eq)
  have r: "\<And>e. resolvable st e \<Longrightarrow>
          (\<exists>s \<in> set (nodes st). gn_id s = e_source e \<and> findNode st (e_source e) = Some s)
        \<and> (\<exists>t \<in> set (nodes st). gn_id t = e_target e \<and> findNode st (e_target e) = Some t)"
    by (auto simp: resolvable_def dest: findNode_SomeD)
  have ends: "\<forall>g \<in> set (edges (setEdges arg st)).
            (\<exists>s \<in> set (nodes (setEdges arg st)). gn_id s = ge_source g
                 \<and> findNode (setEdges arg st) (ge_source g) = Some s \<and> ge_sourceNode g = Some s)
          \<and> (\<exists>t \<in> set (nodes (setEdges arg st)). gn_id t = ge_target g
                 \<and> findNode (setEdges arg st) (ge_target g) = Some t \<and> ge_targetNode g = Some t)"
    unfolding es ns n using r by auto
  have ids: "map ge_id (edges (setEdges arg st)) = map e_id (filter (resolvable st) ?V)"
    unfolding es by (simp add: comp_def)
  show ?thesis using ends ns ids tr by blast
qed

theorem setEdges_keeps_resolvable_edges_witness:
  "initialized storeA
   \<and> map ge_id (edges (setEdges (Collection [plainEdge ''e1'' ''a'' ''a'' None,
          plainEdge ''e2'' ''a'' ''missing'' None, plainEdge ''e3'' ''gone'' ''a'' None,
          plainEdge ''e4'' ''x'' ''y'' None]) storeA)) = [''e1'']
   \<and> triggered (setEdges (Collection [plainEdge ''e1'' ''a'' ''a'' None,
          plainEdge ''e2'' ''a'' ''missing'' None, plainEdge ''e3'' ''gone'' ''a'' None,
          plainEdge ''e4'' ''x'' ''y'' None]) storeA)
       = [ErrorEvent (VueFlowError EDGE_TARGET_MISSING [''e2'', ''missing'']),
          ErrorEvent (VueFlowError EDGE_SOURCE_MISSING [''e3'', ''gone'']),
          ErrorEvent (VueFlowError EDGE_SOURCE_TARGET_MISSING [''e4'', ''x'', ''y''])]"
  using setEdges_keeps_resolvable_edges [of storeA "Collection [plainEdge ''e1'' ''a'' ''a'' None,
          plainEdge ''e2'' ''a'' ''missing'' None, plainEdge ''e3'' ''gone'' ''a'' None,
          plainEdge ''e4'' ''x'' ''y'' None]"]
  by (simp add: resolveArg_def validEdges_def resolvable_def endpointError_def findNode_def
        nodesMap_def)

text \<open>
  C2 fails on the code. \<open>setEdges\<close> rebuilds the connection lookup from the edges that
  passed \<open>isValidConnection\<close>, before it drops the edges with a missing endpoint. In the
  store with the single node \<open>a\<close>, \<open>setEdges\<close> of the edge \<open>e1\<close> from \<open>a\<close> to \<open>missing\<close>
  leaves the edge collection empty, and the lookup still lists \<open>e1\<close> under the source key
  of \<open>a\<close> and under the target key of \<open>missing\<close>.
\<close>

theorem setEdges_index_lists_dropped_edge:
  "edges (setEdges (Collection [plainEdge ''e1'' ''a'' ''missing'' None]) storeA) = []
   \<and> connectionLookup (setEdges (Collection [plainEdge ''e1'' ''a'' ''missing'' None]) storeA)
        (''a'', None, Source) = {''e1''}
   \<and> connectionLookup (setEdges (Collection [plainEdge ''e1'' ''a'' ''missing'' None]) storeA)
        (''missing'', None, Target) = {''e1''}"
  by (simp add: setEdges_eq resolveArg_def validEdges_def resolvable_def findNode_def
        nodesMap_def updateConnectionLookup_def touches_def)

text \<open>
  In general the lookup that \<open>setEdges\<close> leaves behind is the one of the edges that
  passed \<open>isValidConnection\<close>, whether their endpoints resolve or not. The sibling action
  \<open>applyEdgeChanges\<close> rebuilds the lookup from the collection it stores.
\<close>

lemma setEdges_index_of_submitted_edges:
  "initialized st \<or> resolveArg arg (edges st) \<noteq> [] \<Longrightarrow>
   connectionLookup (setEdges arg st)
     = updateConnectionLookup (validEdges (resolveArg arg (edges st)) st)"
  by (simp add: setEdges_eq)

lemma applyEdgeChanges_index_of_stored_edges:
  "connectionLookup (applyEdgeChanges changes st)
     = updateConnectionLookup (map asEdge (edges (applyEdgeChanges changes st)))"
  by (simp add: applyEdgeChanges_def Let_def)

section \<open>Measuring a node that has not changed\<close>

lemma truthy_not_strictNeq: "truthy a \<Longrightarrow> \<not> strictNeq a a"
  by (cases a) (simp_all add: truthy_def strictNeq_def)

lemma updateNodeDimensionsStep_same:
  assumes "\<not> u_forceUpdate u"
    and "\<And>n. findNode st (u_id u) = Some n
           \<Longrightarrow> getDimensions (u_nodeElement u) = gn_dimensions n"
  shows "updateNodeDimensionsStep zoom u (st, res) = (st, res)"
proof (cases "findNode st (u_id u)")
  case None
  then show ?thesis by (simp add: updateNodeDimensionsStep_def)
next
  case (Some n)
  with assms(2) have "getDimensions (u_nodeElement u) = gn_dimensions n" by simp
  with Some assms(1) show ?thesis
    by (auto simp: updateNodeDimensionsStep_def Let_def dest: truthy_not_strictNeq)
qed

lemma updateNodeDimensionsStep_fold_same:
  assumes "\<forall>u\<in>set updates. \<not> u_forceUpdate u
             \<and> (\<forall>n. findNode st (u_id u) = Some n
                    \<longrightarrow> getDimensions (u_nodeElement u) = gn_dimensions n)"
  shows "fold (updateNodeDimensionsStep zoom) updates (st, res) = (st, res)"
  using assms by (induction updates) (simp_all add: updateNodeDimensionsStep_same)

text \<open>
  C5. When every update of the batch has \<open>forceUpdate\<close> false and measures, for the node
  it names, exactly the dimensions the node has, \<open>updateNodeDimensions\<close> triggers no event,
  so no dimensions change reaches \<open>nodesChange\<close>, and it leaves the node collection as it
  was, so each node keeps its \<open>dimensions\<close>, \<open>handleBounds\<close> and \<open>initialized\<close>.
\<close>

theorem updateNodeDimensions_same_measurement:
  assumes "\<forall>u\<in>set updates. \<not> u_forceUpdate u
             \<and> (\<forall>n. findNode st (u_id u) = Some n
                    \<longrightarrow> getDimensions (u_nodeElement u) = gn_dimensions n)"
  shows "nodes (updateNodeDimensions updates st) = nodes st
       \<and> triggered (updateNodeDimensions updates st) = triggered st"
  using assms
  by (simp add: updateNodeDimensions_def updateNodeDimensionsStep_fold_same Let_def
        split: option.splits)

lemma storeMeasured_find [simp]:
  "findNode storeMeasured ''a''
     = Some ((storedNode ''a'' None None)\<lparr>gn_dimensions := \<lparr>width = Num 10, height = Num 20\<rparr>\<rparr>)"
  by (simp add: storeMeasured_def findNode_def nodesMap_def)

theorem updateNodeDimensions_same_measurement_witness:
  "findNode storeMeasured ''a'' \<noteq> None
   \<and> \<not> u_forceUpdate (measurement 10 20 False)
   \<and> nodes (updateNodeDimensions [measurement 10 20 False] storeMeasured) = nodes storeMeasured
   \<and> triggered (updateNodeDimensions [measurement 10 20 False] storeMeasured) = []"
  using updateNodeDimensions_same_measurement [of "[measurement 10 20 False]" storeMeasured]
  by (simp add: measurement_def getDimensions_def) (simp add: storeMeasured_def)

text \<open>
  For contrast: the same measurement with \<open>forceUpdate\<close> set, or a different measurement,
  does reach \<open>nodesChange\<close> and marks the node initialized.
\<close>

lemma updateNodeDimensions_other_measurement:
  "triggered (updateNodeDimensions [measurement 10 20 True] storeMeasured)
     = [NodesChange [NodeDimensionChange ''a'' \<lparr>width = Num 10, height = Num 20\<rparr>]]
   \<and> triggered (updateNodeDimensions [measurement 11 20 False] storeMeasured)
     = [NodesChange [NodeDimensionChange ''a'' \<lparr>width = Num 11, height = Num 20\<rparr>]]
   \<and> map gn_initialized (nodes (updateNodeDimensions [measurement 11 20 False] storeMeasured))
     = [True]"
  by (simp add: updateNodeDimensions_def updateNodeDimensionsStep_def Let_def measurement_def
       getDimensions_def truthy_def strictNeq_def mutateNode_def trigger_def storeMeasured_def
       findNode_def nodesMap_def)

section \<open>Selecting nodes\<close>

lemma getSelectionChanges_edges:
  "getSelectionChanges (map FlowEdge es) ids = ([], edgeSelectionDiff (set ids) es)"
  by (induction es) (simp_all add: edgeSelectionDiff_def createSelectionChange_def Let_def)

lemma getSelectionChanges_all:
  "getSelectionChanges (map FlowNode ns @ map FlowEdge es) ids
     = (nodeSelectionDiff (set ids) ns, edgeSelectionDiff (set ids) es)"
  by (induction ns)
     (simp_all add: getSelectionChanges_edges nodeSelectionDiff_def createSelectionChange_def Let_def)

lemma applyNodeChange_select:
  "applyNodeChange (NodeSelectionChange (SelectionChange i b)) ns
     = map (\<lambda>n. if gn_id n = i then n\<lparr>gn_selected := b\<rparr> else n) ns"
  by (simp add: applyNodeChange_def)

lemma applyEdgeChange_select:
  "applyEdgeChange (EdgeSelectionChange (SelectionChange i b)) es
     = map (\<lambda>e. if ge_id e = i then e\<lparr>ge_selected := b\<rparr> else e) es"
  by (simp add: applyEdgeChange_def)

lemma fold_applyNodeChange_select:
  "fold applyNodeChange (map (\<lambda>i. NodeSelectionChange (SelectionChange i (f i))) is) ns
     = map (\<lambda>n. if gn_id n \<in> set is then n\<lparr>gn_selected := f (gn_id n)\<rparr> else n) ns"
proof (induction "is" arbitrary: ns)
  case Nil
  show ?case by simp
next
  case (Cons i "is")
  show ?case
    by (simp add: Cons.IH applyNodeChange_select comp_def)
qed

lemma fold_applyEdgeChange_select:
  "fold applyEdgeChange (map (\<lambda>i. EdgeSelectionChange (SelectionChange i (f i))) is) es
     = map (\<lambda>e. if ge_id e \<in> set is then e\<lparr>ge_selected := f (ge_id e)\<rparr> else e) es"
proof (induction "is" arbitrary: es)
  case Nil
  show ?case by simp
next
  case (Cons i "is")
  show ?case
    by (simp add: Cons.IH applyEdgeChange_select comp_def)
qed

lemma apply_nodeSelectionDiff:
  "fold applyNodeChange (nodeSelectionDiff ids ns) ns = map (\<lambda>n. n\<lparr>gn_selected := gn_id n \<in> ids\<rparr>) ns"
proof -
  have "nodeSelectionDiff ids ns
      = map (\<lambda>i. NodeSelectionChange (SelectionChange i (i \<in> ids))) (map gn_id ns)"
    by (simp add: nodeSelectionDiff_def comp_def)
  then have "fold applyNodeChange (nodeSelectionDiff ids ns) ns
      = map (\<lambda>n. if gn_id n \<in> set (map gn_id ns) then n\<lparr>gn_selected := gn_id n \<in> ids\<rparr> else n) ns"
    by (simp only: fold_applyNodeChange_select)
  also have "\<dots> = map (\<lambda>n. n\<lparr>gn_selected := gn_id n \<in> ids\<rparr>) ns"
    by (rule map_cong) simp_all
  finally show ?thesis .
qed

lemma apply_edgeSelectionDiff:
  "fold applyEdgeChange (edgeSelectionDiff ids es) es = map (\<lambda>e. e\<lparr>ge_selected := ge_id e \<in> ids\<rparr>) es"
proof -
  have "edgeSelectionDiff ids es
      = map (\<lambda>i. EdgeSelectionChange (SelectionChange i (i \<in> ids))) (map ge_id es)"
    by (simp add: edgeSelectionDiff_def comp_def)
  then have "fold applyEdgeChange (edgeSelectionDiff ids es) es
      = map (\<lambda>e. if ge_id e \<in> set (map ge_id es) then e\<lparr>ge_selected := ge_id e \<in> ids\<rparr> else e) es"
    by (simp only: fold_applyEdgeChange_select)
  also have "\<dots> = map (\<lambda>e. e\<lparr>ge_selected := ge_id e \<in> ids\<rparr>) es"
    by (rule map_cong) simp_all
  finally show ?thesis .
qed


text \<open>
  C4. \<open>getSelectionChanges\<close> is modelled from the spec. In single-selection mode
  \<open>addSelectedNodes\<close> hands \<open>nodesChange\<close> one change per stored node and \<open>edgesChange\<close>
  one change per stored edge, in one pass: a select change for every element whose id is
  among the ids of the targets and an unselect change for every other element; applied by
  the diff engine, these changes leave exactly the elements with a target id selected. In
  multi-selection mode it hands \<open>nodesChange\<close> a select change per target and nothing to
  \<open>edgesChange\<close>; applied, these set the flag of the nodes with a target id and leave every
  other node as it was. The action itself changes neither collection.
\<close>

theorem addSelectedNodes_selection:
  "(\<not> multiSelectionActive st \<longrightarrow>
       triggered (addSelectedNodes targets st) = triggered st
         @ (if nodes st = [] then []
            else [NodesChange (nodeSelectionDiff (set (map gn_id targets)) (nodes st))])
         @ (if edges st = [] then []
            else [EdgesChange (edgeSelectionDiff (set (map gn_id targets)) (edges st))])
     \<and> fold applyNodeChange (nodeSelectionDiff (set (map gn_id targets)) (nodes st)) (nodes st)
         = map (\<lambda>n. n\<lparr>gn_selected := gn_id n \<in> set (map gn_id targets)\<rparr>) (nodes st)
     \<and> fold applyEdgeChange (edgeSelectionDiff (set (map gn_id targets)) (edges st)) (edges st)
         = map (\<lambda>e. e\<lparr>ge_selected := ge_id e \<in> set (map gn_id targets)\<rparr>) (edges st))
   \<and> (multiSelectionActive st \<longrightarrow>
       triggered (addSelectedNodes targets st) = triggered st
         @ (if targets = [] then []
            else [NodesChange (map (\<lambda>t. NodeSelectionChange (SelectionChange (gn_id t) True)) targets)])
     \<and> fold applyNodeChange
           (map (\<lambda>t. NodeSelectionChange (SelectionChange (gn_id t) True)) targets) (nodes st)
         = map (\<lambda>n. if gn_id n \<in> set (map gn_id targets) then n\<lparr>gn_selected := True\<rparr> else n)
             (nodes st))
   \<and> nodes (addSelectedNodes targets st) = nodes st
   \<and> edges (addSelectedNodes targets st) = edges st"
proof -
  have multi: "fold applyNodeChange
           (map (\<lambda>t. NodeSelectionChange (SelectionChange (gn_id t) True)) targets) (nodes st)
         = map (\<lambda>n. if gn_id n \<in> set (map gn_id targets) then n\<lparr>gn_selected := True\<rparr> else n)
             (nodes st)"
    using fold_applyNodeChange_select [of "\<lambda>i. True" "map gn_id targets" "nodes st"]
    by (simp add: comp_def)
  have single: "\<not> multiSelectionActive st \<Longrightarrow>
       triggered (addSelectedNodes targets st) = triggered st
         @ (if nodes st = [] then []
            else [NodesChange (nodeSelectionDiff (set (map gn_id targets)) (nodes st))])
         @ (if edges st = [] then []
            else [EdgesChange (edgeSelectionDiff (set (map gn_id targets)) (edges st))])"
    by (simp add: addSelectedNodes_def nodeSelectionHandler_def getSelectionChanges_all
          trigger_def nodeSelectionDiff_def edgeSelectionDiff_def)
  have many: "multiSelectionActive st \<Longrightarrow>
       triggered (addSelectedNodes targets st) = triggered st
         @ (if targets = [] then []
            else [NodesChange (map (\<lambda>t. NodeSelectionChange (SelectionChange (gn_id t) True)) targets)])"
    by (simp add: addSelectedNodes_def nodeSelectionHandler_def trigger_def
          createSelectionChange_def comp_def)
  have frame: "nodes (addSelectedNodes targets st) = nodes st
     \<and> edges (addSelectedNodes targets st) = edges st"
    by (simp add: addSelectedNodes_def nodeSelectionHandler_def trigger_def Let_def
          split: prod.splits)
  show ?thesis
    using multi single many frame apply_nodeSelectionDiff apply_edgeSelectionDiff by blast
qed

lemma storeAB_fields [simp]:
  "nodes storeAB = [(storedNode ''a'' None None)\<lparr>gn_selected := True\<rparr>, storedNode ''b'' None None]"
  "edges storeAB = [(storedEdge ''e1'' ''a'' ''b'' None)\<lparr>ge_selected := True\<rparr>]"
  "triggered storeAB = []"
  "multiSelectionActive storeAB = False"
  by (simp_all add: storeAB_def)

theorem addSelectedNodes_selection_witness:
  "\<not> multiSelectionActive storeAB
   \<and> triggered (addSelectedNodes [storedNode ''b'' None None] storeAB)
       = [NodesChange [NodeSelectionChange (SelectionChange ''a'' False),
                       NodeSelectionChange (SelectionChange ''b'' True)],
          EdgesChange [EdgeSelectionChange (SelectionChange ''e1'' False)]]
   \<and> map gn_selected (fold applyNodeChange
         [NodeSelectionChange (SelectionChange ''a'' False),
          NodeSelectionChange (SelectionChange ''b'' True)] (nodes storeAB)) = [False, True]
   \<and> multiSelectionActive (storeAB\<lparr>multiSelectionActive := True\<rparr>)
   \<and> triggered (addSelectedNodes [storedNode ''b'' None None]
        (storeAB\<lparr>multiSelectionActive := True\<rparr>))
       = [NodesChange [NodeSelectionChange (SelectionChange ''b'' True)]]
   \<and> map gn_selected (fold applyNodeChange
         [NodeSelectionChange (SelectionChange ''b'' True)] (nodes storeAB)) = [True, True]"
  using addSelectedNodes_selection [of storeAB "[storedNode ''b'' None None]"]
    addSelectedNodes_selection [of "storeAB\<lparr>multiSelectionActive := True\<rparr>" "[storedNode ''b'' None None]"]
  by (simp add: nodeSelectionDiff_def edgeSelectionDiff_def)

section \<open>Removing nodes with their edges and children\<close>

lemma pushed_pushed [simp]:
  "pushed (pushed acc n1 e1) n2 e2 = pushed acc (n1 @ n2) (e1 @ e2)"
  by (simp add: pushed_def)

lemma pushed_nil [simp]: "pushed acc [] [] = acc"
  by (simp add: pushed_def)

lemma createEdgeRemovalChanges_eq:
  "createEdgeRemovalChanges st ns acc =
     pushed acc [] (map removalOf
       (filter deletableEdge (filter (\<lambda>e. \<exists>n \<in> set ns. incident e (n_id n)) (edges st))))"
proof -
  have "getConnectedEdges ns st = filter (\<lambda>e. \<exists>n \<in> set ns. incident e (n_id n)) (edges st)"
    unfolding getConnectedEdges_def getConnectedEdgesBase_def
    by (rule filter_cong) (auto simp: incident_def)
  then show ?thesis
    by (simp add: createEdgeRemovalChanges_def pushed_def removalOf_def deletableEdge_def
          Let_def cong: filter_cong)
qed

lemma createEdgeRemovalChanges_set:
  "set (map removalOf
       (filter deletableEdge (filter (\<lambda>e. \<exists>n \<in> set ns. incident e (n_id n)) (edges st))))
     = edgeRemovals st (set (map n_id ns))"
  by (auto simp: edgeRemovals_def)

lemma descendants_unfold:
  "descendants st i =
     {n \<in> set (nodes st). gn_parentNode n = Some i}
     \<union> (\<Union>c \<in> {n \<in> set (nodes st). gn_parentNode n = Some i}. descendants st (gn_id c))"
proof -
  have "\<And>n. descendant (nodes st) i n \<longleftrightarrow>
          (n \<in> set (nodes st) \<and> gn_parentNode n = Some i)
          \<or> (\<exists>c \<in> set (nodes st). gn_parentNode c = Some i \<and> descendant (nodes st) (gn_id c) n)"
    by (subst descendant.simps) blast
  then show ?thesis unfolding descendants_def by blast
qed

lemma fold_children_pushed:
  assumes "\<And>c a. c \<in> set cs \<Longrightarrow>
             \<exists>ncs ecs. g c a = Some (pushed a ncs ecs) \<and> set ncs = A c \<and> set ecs = B c"
  shows "\<exists>ncs ecs. fold (\<lambda>c r. case r of None \<Rightarrow> None | Some a \<Rightarrow> g c a) cs (Some a)
                     = Some (pushed a ncs ecs)
           \<and> set ncs = (\<Union>c \<in> set cs. A c) \<and> set ecs = (\<Union>c \<in> set cs. B c)"
  using assms
proof (induction cs arbitrary: a)
  case Nil
  have "fold (\<lambda>c r. case r of None \<Rightarrow> None | Some a \<Rightarrow> g c a) [] (Some a) = Some (pushed a [] [])"
    by simp
  then show ?case by fastforce
next
  case (Cons c cs)
  from Cons.prems [of c a] obtain n1 e1 where
    1: "g c a = Some (pushed a n1 e1)" "set n1 = A c" "set e1 = B c" by auto
  from Cons.IH [of "pushed a n1 e1"] Cons.prems obtain n2 e2 where
    2: "fold (\<lambda>c r. case r of None \<Rightarrow> None | Some a \<Rightarrow> g c a) cs (Some (pushed a n1 e1))
          = Some (pushed (pushed a n1 e1) n2 e2)"
       "set n2 = (\<Union>c \<in> set cs. A c)" "set e2 = (\<Union>c \<in> set cs. B c)"
    by (metis list.set_intros(2))
  have "fold (\<lambda>c r. case r of None \<Rightarrow> None | Some a \<Rightarrow> g c a) (c # cs) (Some a)
          = Some (pushed a (n1 @ n2) (e1 @ e2))"
    using 1 2 by simp
  moreover have "set (n1 @ n2) = (\<Union>c \<in> set (c # cs). A c)" using 1 2 by auto
  moreover have "set (e1 @ e2) = (\<Union>c \<in> set (c # cs). B c)" using 1 2 by auto
  ultimately show ?case by blast
qed


lemma edgeRemovals_Un: "edgeRemovals st (A \<union> B) = edgeRemovals st A \<union> edgeRemovals st B"
  by (auto simp: edgeRemovals_def)

lemma edgeRemovals_UN: "edgeRemovals st (\<Union>c \<in> C. F c) = (\<Union>c \<in> C. edgeRemovals st (F c))"
  by (auto simp: edgeRemovals_def)

lemma nodeRemovals_Un: "nodeRemovals (A \<union> B) = nodeRemovals A \<union> nodeRemovals B"
  by (auto simp: nodeRemovals_def)

lemma nodeRemovals_UN: "nodeRemovals (\<Union>c \<in> C. F c) = (\<Union>c \<in> C. nodeRemovals (F c))"
  by (auto simp: nodeRemovals_def)

lemma nodeRemovals_empty [simp]: "nodeRemovals {} = {}"
  by (simp add: nodeRemovals_def)

lemma edgeRemovals_empty [simp]: "edgeRemovals st {} = {}"
  by (simp add: edgeRemovals_def)

lemma push_nodeChanges:
  "acc\<lparr>nodeChanges := nodeChanges acc @ xs\<rparr> = pushed acc xs []"
  by (simp add: pushed_def)

lemma createChildrenRemovalChanges_Suc:
  "createChildrenRemovalChanges (Suc depth) st rce i acc =
     (if filter (\<lambda>n. gn_parentNode n = Some i) (nodes st) = [] then Some acc
      else fold (\<lambda>child r. case r of None \<Rightarrow> None
                   | Some a \<Rightarrow> createChildrenRemovalChanges depth st rce (gn_id child) a)
             (filter (\<lambda>n. gn_parentNode n = Some i) (nodes st))
             (Some (pushed acc
                (map (\<lambda>n. createNodeRemoveChange (gn_id n))
                   (filter (\<lambda>n. gn_parentNode n = Some i) (nodes st)))
                (if rce
                 then map removalOf (filter deletableEdge
                        (filter (\<lambda>e. \<exists>n \<in> set (filter (\<lambda>n. gn_parentNode n = Some i) (nodes st)).
                                   incident e (gn_id n)) (edges st)))
                 else []))))"
proof -
  have ids: "\<And>cs e. (\<exists>n \<in> set (map asNode cs). incident e (n_id n))
               = (\<exists>n \<in> set cs. incident e (gn_id n))"
    by (simp add: asNode_def)
  show ?thesis
    by (simp add: Let_def push_nodeChanges createEdgeRemovalChanges_eq ids
          del: set_map set_filter)
qed

declare createChildrenRemovalChanges.simps [simp del]

lemma createChildrenRemovalChanges_cascade:
  assumes ranked: "parentsRanked rank st"
  shows "rank i < depth \<Longrightarrow>
     \<exists>ncs ecs. createChildrenRemovalChanges depth st rce i acc = Some (pushed acc ncs ecs)
        \<and> set ncs = nodeRemovals (gn_id ` descendants st i)
        \<and> set ecs = (if rce then edgeRemovals st (gn_id ` descendants st i) else {})"
proof (induction depth arbitrary: i acc)
  case 0
  then show ?case by simp
next
  case (Suc depth)
  let ?cs = "filter (\<lambda>n. gn_parentNode n = Some i) (nodes st)"
  have cs: "set ?cs = {n \<in> set (nodes st). gn_parentNode n = Some i}" by auto
  have D: "descendants st i = set ?cs \<union> (\<Union>c \<in> set ?cs. descendants st (gn_id c))"
    using descendants_unfold [of st i] by (simp only: cs)
  show ?case
  proof (cases "?cs = []")
    case True
    then have empty: "descendants st i = {}" using D by simp
    have r: "createChildrenRemovalChanges (Suc depth) st rce i acc = Some (pushed acc [] [])"
      using True by (subst createChildrenRemovalChanges_Suc) simp
    have a: "set ([]::nodeChange list) = nodeRemovals (gn_id ` descendants st i)"
      by (simp add: empty)
    have b: "set ([]::edgeChange list)
               = (if rce then edgeRemovals st (gn_id ` descendants st i) else {})"
      by (simp add: empty)
    show ?thesis using r a b by blast
  next
    case False
    let ?n0 = "map (\<lambda>n. createNodeRemoveChange (gn_id n)) ?cs"
    let ?e0 = "if rce
                 then map removalOf (filter deletableEdge
                        (filter (\<lambda>e. \<exists>n \<in> set ?cs. incident e (gn_id n)) (edges st)))
                 else []"
    have child: "\<And>c a. c \<in> set ?cs \<Longrightarrow>
       \<exists>ncs ecs. createChildrenRemovalChanges depth st rce (gn_id c) a = Some (pushed a ncs ecs)
          \<and> set ncs = nodeRemovals (gn_id ` descendants st (gn_id c))
          \<and> set ecs = (if rce then edgeRemovals st (gn_id ` descendants st (gn_id c)) else {})"
    proof -
      fix c a assume "c \<in> set ?cs"
      then have "c \<in> set (nodes st)" "gn_parentNode c = Some i" by auto
      with ranked have "rank (gn_id c) < rank i"
        by (auto simp: parentsRanked_def split: option.splits)
      with Suc.prems have "rank (gn_id c) < depth" by simp
      then show "\<exists>ncs ecs. createChildrenRemovalChanges depth st rce (gn_id c) a = Some (pushed a ncs ecs)
          \<and> set ncs = nodeRemovals (gn_id ` descendants st (gn_id c))
          \<and> set ecs = (if rce then edgeRemovals st (gn_id ` descendants st (gn_id c)) else {})"
        by (rule Suc.IH)
    qed
    from fold_children_pushed [of ?cs "\<lambda>c a. createChildrenRemovalChanges depth st rce (gn_id c) a"
        "\<lambda>c. nodeRemovals (gn_id ` descendants st (gn_id c))"
        "\<lambda>c. if rce then edgeRemovals st (gn_id ` descendants st (gn_id c)) else {}"
        "pushed acc ?n0 ?e0", OF child]
    obtain n1 e1 where
      f: "fold (\<lambda>c r. case r of None \<Rightarrow> None
                   | Some a \<Rightarrow> createChildrenRemovalChanges depth st rce (gn_id c) a)
             ?cs (Some (pushed acc ?n0 ?e0)) = Some (pushed (pushed acc ?n0 ?e0) n1 e1)"
      and n1: "set n1 = (\<Union>c \<in> set ?cs. nodeRemovals (gn_id ` descendants st (gn_id c)))"
      and e1: "set e1 = (\<Union>c \<in> set ?cs. if rce then edgeRemovals st (gn_id ` descendants st (gn_id c)) else {})"
      by blast
    have res: "createChildrenRemovalChanges (Suc depth) st rce i acc
                 = Some (pushed acc (?n0 @ n1) (?e0 @ e1))"
      using False f by (subst createChildrenRemovalChanges_Suc) (simp only: if_False pushed_pushed)
    have n0: "set ?n0 = nodeRemovals (gn_id ` set ?cs)"
      by (simp add: nodeRemovals_def image_image del: set_filter)
    have ns: "set (?n0 @ n1) = nodeRemovals (gn_id ` descendants st i)"
      by (subst D) (simp only: set_append n0 n1 image_Un image_UN nodeRemovals_Un nodeRemovals_UN)
    have e0: "rce \<Longrightarrow> set ?e0 = edgeRemovals st (gn_id ` set ?cs)"
      by (auto simp: edgeRemovals_def)
    have es: "set (?e0 @ e1) = (if rce then edgeRemovals st (gn_id ` descendants st i) else {})"
    proof (cases rce)
      case True
      have "edgeRemovals st (gn_id ` descendants st i)
          = edgeRemovals st (gn_id ` set ?cs)
            \<union> (\<Union>c \<in> set ?cs. edgeRemovals st (gn_id ` descendants st (gn_id c)))"
        by (subst D) (simp only: image_Un image_UN edgeRemovals_Un edgeRemovals_UN)
      then show ?thesis using True e0 e1 by simp
    next
      case False
      then show ?thesis using e1 by simp
    qed
    show ?thesis using res ns es by blast
  qed
qed


lemma removeNodesStep_None [simp]: "removeNodesStep depth st rce rc item None = None"
  by (simp add: removeNodesStep_def)

lemma removeNodesStep_as_case:
  "removeNodesStep depth st rce rc =
     (\<lambda>item r. case r of None \<Rightarrow> None | Some a \<Rightarrow> removeNodesStep depth st rce rc item (Some a))"
  by (intro ext) (simp split: option.splits)

lemma removeNodesStep_Some:
  "removeNodesStep depth st rce rc item (Some acc) =
     (case currNodeOf st item of
        None \<Rightarrow> Some acc
      | Some n \<Rightarrow>
          if n_deletable n = Some False then Some acc
          else if rc
          then createChildrenRemovalChanges depth st rce (n_id n)
                 (pushed acc [createNodeRemoveChange (n_id n)]
                    (if rce then map removalOf (filter deletableEdge
                        (filter (\<lambda>e. \<exists>m \<in> set [n]. incident e (n_id m)) (edges st))) else []))
          else Some (pushed acc [createNodeRemoveChange (n_id n)]
                    (if rce then map removalOf (filter deletableEdge
                        (filter (\<lambda>e. \<exists>m \<in> set [n]. incident e (n_id m)) (edges st))) else [])))"
proof -
  have d: "\<And>n. (case n_deletable n of Some d \<Rightarrow> \<not> d | None \<Rightarrow> False) = (n_deletable n = Some False)"
    by (simp split: option.splits)
  show ?thesis
    by (simp add: removeNodesStep_def d Let_def push_nodeChanges createEdgeRemovalChanges_eq
          split: option.splits)
qed

lemma removeNodesStep_cascade:
  assumes ranked: "rc \<Longrightarrow> parentsRanked rank st"
    and deep: "\<And>n. rc \<Longrightarrow> currNodeOf st item = Some n \<Longrightarrow> rank (n_id n) < depth"
  shows "\<exists>ncs ecs. removeNodesStep depth st rce rc item (Some acc) = Some (pushed acc ncs ecs)
           \<and> set ncs = nodeRemovals (itemIds st rc item)
           \<and> set ecs = (if rce then edgeRemovals st (itemIds st rc item) else {})"
proof (cases "currNodeOf st item")
  case None
  then have "removeNodesStep depth st rce rc item (Some acc) = Some (pushed acc [] [])"
    by (simp add: removeNodesStep_Some)
  moreover have "itemIds st rc item = {}" using None by (simp add: itemIds_def)
  ultimately show ?thesis by (intro exI [of _ "[]"]) simp
next
  case (Some n)
  show ?thesis
  proof (cases "n_deletable n = Some False")
    case True
    then have "removeNodesStep depth st rce rc item (Some acc) = Some (pushed acc [] [])"
      using Some by (simp add: removeNodesStep_Some)
    moreover have "itemIds st rc item = {}" using Some True by (simp add: itemIds_def)
    ultimately show ?thesis by (intro exI [of _ "[]"]) simp
  next
    case False
    let ?n0 = "[createNodeRemoveChange (n_id n)]"
    let ?e0 = "if rce then map removalOf (filter deletableEdge
                        (filter (\<lambda>e. \<exists>m \<in> set [n]. incident e (n_id m)) (edges st))) else []"
    have n0: "set ?n0 = nodeRemovals {n_id n}" by (simp add: nodeRemovals_def)
    have e0: "rce \<Longrightarrow> set ?e0 = edgeRemovals st {n_id n}" by (auto simp: edgeRemovals_def)
    show ?thesis
    proof (cases rc)
      case False
      have ids: "itemIds st rc item = {n_id n}"
        using Some \<open>n_deletable n \<noteq> Some False\<close> False by (simp add: itemIds_def cascadeIds_def)
      have "removeNodesStep depth st rce rc item (Some acc) = Some (pushed acc ?n0 ?e0)"
        using Some \<open>n_deletable n \<noteq> Some False\<close> False by (simp add: removeNodesStep_Some)
      moreover have "set ?n0 = nodeRemovals (itemIds st rc item)" using n0 ids by simp
      moreover have "set ?e0 = (if rce then edgeRemovals st (itemIds st rc item) else {})"
        using e0 ids by simp
      ultimately show ?thesis by blast
    next
      case True
      have ids: "itemIds st rc item = {n_id n} \<union> gn_id ` descendants st (n_id n)"
        using Some \<open>n_deletable n \<noteq> Some False\<close> True by (simp add: itemIds_def cascadeIds_def)
      from createChildrenRemovalChanges_cascade [OF ranked [OF True], of "n_id n" depth rce
          "pushed acc ?n0 ?e0"] deep [OF True Some]
      obtain n1 e1 where
        c: "createChildrenRemovalChanges depth st rce (n_id n) (pushed acc ?n0 ?e0)
              = Some (pushed (pushed acc ?n0 ?e0) n1 e1)"
        and n1: "set n1 = nodeRemovals (gn_id ` descendants st (n_id n))"
        and e1: "set e1 = (if rce then edgeRemovals st (gn_id ` descendants st (n_id n)) else {})"
        by blast
      have "removeNodesStep depth st rce rc item (Some acc) = Some (pushed acc (?n0 @ n1) (?e0 @ e1))"
        using Some \<open>n_deletable n \<noteq> Some False\<close> True c
        by (simp only: removeNodesStep_Some option.case if_False if_True pushed_pushed)
      moreover have "set (?n0 @ n1) = nodeRemovals (itemIds st rc item)"
        by (simp only: set_append n0 n1 ids nodeRemovals_Un)
      moreover have "set (?e0 @ e1) = (if rce then edgeRemovals st (itemIds st rc item) else {})"
      proof (cases rce)
        case True
        then show ?thesis using e0 e1 by (simp only: set_append ids edgeRemovals_Un if_True)
      next
        case False
        then show ?thesis using e1 by simp
      qed
      ultimately show ?thesis by blast
    qed
  qed
qed


lemma removeNodes_cascade:
  assumes ranked: "rc \<Longrightarrow> parentsRanked rank st"
    and deep: "\<And>item n. rc \<Longrightarrow> item \<in> set (resolveArg arg (nodes st))
                 \<Longrightarrow> currNodeOf st item = Some n \<Longrightarrow> rank (n_id n) < depth"
  shows "\<exists>ncs ecs.
     removeNodes depth arg rce rc st =
       Some (st\<lparr>triggered := triggered st @ (if ecs = [] then [] else [EdgesChange ecs])
                    @ (if ncs = [] then [] else [NodesChange ncs])\<rparr>)
     \<and> set ncs = nodeRemovals (\<Union>item \<in> set (resolveArg arg (nodes st)). itemIds st rc item)
     \<and> set ecs = (if rce
                  then edgeRemovals st (\<Union>item \<in> set (resolveArg arg (nodes st)). itemIds st rc item)
                  else {})"
proof -
  let ?items = "resolveArg arg (nodes st)"
  let ?start = "\<lparr>nodeChanges = [], edgeChanges = []\<rparr>"
  have step: "\<And>item a. item \<in> set ?items \<Longrightarrow>
      \<exists>ncs ecs. removeNodesStep depth st rce rc item (Some a) = Some (pushed a ncs ecs)
           \<and> set ncs = nodeRemovals (itemIds st rc item)
           \<and> set ecs = (if rce then edgeRemovals st (itemIds st rc item) else {})"
    using ranked deep by (intro removeNodesStep_cascade) blast+
  have "\<exists>ncs ecs.
      fold (\<lambda>item r. case r of None \<Rightarrow> None
              | Some a \<Rightarrow> removeNodesStep depth st rce rc item (Some a)) ?items (Some ?start)
        = Some (pushed ?start ncs ecs)
      \<and> set ncs = (\<Union>item \<in> set ?items. nodeRemovals (itemIds st rc item))
      \<and> set ecs = (\<Union>item \<in> set ?items. if rce then edgeRemovals st (itemIds st rc item) else {})"
    by (rule fold_children_pushed) (rule step)
  then obtain ncs ecs where
    f: "fold (removeNodesStep depth st rce rc) ?items (Some ?start) = Some (pushed ?start ncs ecs)"
    and n: "set ncs = (\<Union>item \<in> set ?items. nodeRemovals (itemIds st rc item))"
    and e: "set ecs = (\<Union>item \<in> set ?items. if rce then edgeRemovals st (itemIds st rc item) else {})"
    unfolding removeNodesStep_as_case [symmetric] by blast
  have p: "pushed ?start ncs ecs = \<lparr>nodeChanges = ncs, edgeChanges = ecs\<rparr>"
    by (simp add: pushed_def)
  have "removeNodes depth arg rce rc st =
       Some (st\<lparr>triggered := triggered st @ (if ecs = [] then [] else [EdgesChange ecs])
                    @ (if ncs = [] then [] else [NodesChange ncs])\<rparr>)"
    by (simp add: removeNodes_def f p trigger_def)
  moreover have "set ncs = nodeRemovals (\<Union>item \<in> set ?items. itemIds st rc item)"
    by (simp only: n nodeRemovals_UN)
  moreover have "set ecs = (if rce then edgeRemovals st (\<Union>item \<in> set ?items. itemIds st rc item) else {})"
    by (cases rce) (simp_all only: e edgeRemovals_UN if_True if_False, simp)
  ultimately show ?thesis by blast
qed


text \<open>
  C3, as amended. Let the target resolve to a node whose \<open>deletable\<close> flag is not \<open>false\<close>,
  and let the parent references of the store be free of cycles (a child ranks below its
  parent; the call depth exceeds the rank of the target). Then \<open>removeNodes\<close> with
  \<open>removeConnectedEdges\<close> and \<open>removeChildren\<close> returns; the node changes it hands to
  \<open>nodesChange\<close> are the remove changes of the target and of every transitive descendant,
  and no others; the edge changes are the remove changes of every stored edge that is
  incident on the target or on a descendant and whose \<open>deletable\<close> flag is not \<open>false\<close>,
  and no others; and the edge changes, when there are any, are triggered on \<open>edgesChange\<close>
  before the node changes on \<open>nodesChange\<close>.
\<close>

theorem removeNodes_cascade_of_target:
  assumes "currNodeOf st item = Some t"
    and "n_deletable t \<noteq> Some False"
    and "parentsRanked rank st"
    and "rank (n_id t) < depth"
  shows "\<exists>ncs ecs.
     removeNodes depth (Collection [item]) True True st =
       Some (st\<lparr>triggered := triggered st @ (if ecs = [] then [] else [EdgesChange ecs])
                    @ [NodesChange ncs]\<rparr>)
     \<and> set ncs = nodeRemovals (insert (n_id t) (gn_id ` descendants st (n_id t)))
     \<and> set ecs = edgeRemovals st (insert (n_id t) (gn_id ` descendants st (n_id t)))"
proof -
  have items: "resolveArg (Collection [item]) (nodes st) = [item]"
    by (simp add: resolveArg_def)
  have ids: "(\<Union>i \<in> set [item]. itemIds st True i)
               = insert (n_id t) (gn_id ` descendants st (n_id t))"
    using assms(1,2) by (simp add: itemIds_def cascadeIds_def)
  have deep: "\<And>i n. i \<in> set (resolveArg (Collection [item]) (nodes st))
                 \<Longrightarrow> currNodeOf st i = Some n \<Longrightarrow> rank (n_id n) < depth"
    using assms(1,4) by (simp add: items)
  have "\<exists>ncs ecs.
     removeNodes depth (Collection [item]) True True st =
       Some (st\<lparr>triggered := triggered st @ (if ecs = [] then [] else [EdgesChange ecs])
                    @ (if ncs = [] then [] else [NodesChange ncs])\<rparr>)
     \<and> set ncs = nodeRemovals (\<Union>i \<in> set (resolveArg (Collection [item]) (nodes st)). itemIds st True i)
     \<and> set ecs = (if True
                  then edgeRemovals st (\<Union>i \<in> set (resolveArg (Collection [item]) (nodes st)). itemIds st True i)
                  else {})"
    by (rule removeNodes_cascade [where rank = rank]) (rule assms(3), rule deep)
  then obtain ncs ecs where
    r: "removeNodes depth (Collection [item]) True True st =
       Some (st\<lparr>triggered := triggered st @ (if ecs = [] then [] else [EdgesChange ecs])
                    @ (if ncs = [] then [] else [NodesChange ncs])\<rparr>)"
    and n: "set ncs = nodeRemovals (insert (n_id t) (gn_id ` descendants st (n_id t)))"
    and e: "set ecs = edgeRemovals st (insert (n_id t) (gn_id ` descendants st (n_id t)))"
    unfolding items ids if_True by blast
  from n have "ncs \<noteq> []" by (auto simp: nodeRemovals_def)
  then have "(if ncs = [] then [] else [NodesChange ncs]) = [NodesChange ncs]" by simp
  with r have "removeNodes depth (Collection [item]) True True st =
       Some (st\<lparr>triggered := triggered st @ (if ecs = [] then [] else [EdgesChange ecs])
                    @ [NodesChange ncs]\<rparr>)"
    by (simp only:)
  with n e show ?thesis by blast
qed

lemma storeTree_fields [simp]:
  "nodes storeTree = [storedNode ''p'' None None, storedNode ''c'' (Some ''p'') None,
                 storedNode ''g'' (Some ''c'') None, storedNode ''x'' None None]"
  "edges storeTree = [storedEdge ''e1'' ''p'' ''x'' None, storedEdge ''e2'' ''x'' ''g'' None,
                 storedEdge ''e3'' ''x'' ''x'' None, storedEdge ''e4'' ''c'' ''x'' (Some False)]"
  "triggered storeTree = []"
  by (simp_all add: storeTree_def)

lemma storeTree_ranked: "parentsRanked rankTree storeTree"
  by (simp add: parentsRanked_def rankTree_def)


lemma asNode_fields [simp]:
  "n_id (asNode g) = gn_id g"
  "n_deletable (asNode g) = gn_deletable g"
  "n_parentNode (asNode g) = gn_parentNode g"
  by (simp_all add: asNode_def)

lemma storeTree_find [simp]:
  "findNode storeTree ''p'' = Some (storedNode ''p'' None None)"
  "findNode storeTree ''x'' = Some (storedNode ''x'' None None)"
  by (simp_all add: findNode_def nodesMap_def)

lemma storeTree_children:
  "createChildrenRemovalChanges 3 storeTree True ''p'' acc =
     Some (pushed acc [NodeRemoveChange ''c'', NodeRemoveChange ''g'']
             [EdgeRemoveChange ''e2'' ''x'' ''g'' None None])"
  by (simp add: eval_nat_numeral createChildrenRemovalChanges_Suc incident_def deletableEdge_def
        removalOf_def createNodeRemoveChange_def createEdgeRemoveChange_def)


lemma storeTree_remove_p:
  "removeNodes 3 (Collection [ById ''p'']) True True storeTree =
       Some (storeTree\<lparr>triggered :=
         [EdgesChange [EdgeRemoveChange ''e1'' ''p'' ''x'' None None,
                       EdgeRemoveChange ''e2'' ''x'' ''g'' None None],
          NodesChange [NodeRemoveChange ''p'', NodeRemoveChange ''c'', NodeRemoveChange ''g'']]\<rparr>)"
proof -
  have 1: "currNodeOf storeTree (ById ''p'') = Some (asNode (storedNode ''p'' None None))"
    by (simp add: currNodeOf_def)
  have s: "removeNodesStep 3 storeTree True True (ById ''p'') (Some \<lparr>nodeChanges = [], edgeChanges = []\<rparr>)
     = Some \<lparr>nodeChanges = [NodeRemoveChange ''p'', NodeRemoveChange ''c'', NodeRemoveChange ''g''],
             edgeChanges = [EdgeRemoveChange ''e1'' ''p'' ''x'' None None,
                       EdgeRemoveChange ''e2'' ''x'' ''g'' None None]\<rparr>"
    by (simp add: removeNodesStep_Some 1 storeTree_children
          incident_def deletableEdge_def removalOf_def createNodeRemoveChange_def
          createEdgeRemoveChange_def pushed_def)
  show ?thesis
    by (simp add: removeNodes_def resolveArg_def s trigger_def)
qed


theorem removeNodes_cascade_of_target_witness:
  "currNodeOf storeTree (ById ''p'') = Some (asNode (storedNode ''p'' None None))
   \<and> n_deletable (asNode (storedNode ''p'' None None)) \<noteq> Some False
   \<and> parentsRanked rankTree storeTree
   \<and> rankTree ''p'' < 3
   \<and> removeNodes 3 (Collection [ById ''p'']) True True storeTree =
       Some (storeTree\<lparr>triggered :=
         [EdgesChange [EdgeRemoveChange ''e1'' ''p'' ''x'' None None,
                       EdgeRemoveChange ''e2'' ''x'' ''g'' None None],
          NodesChange [NodeRemoveChange ''p'', NodeRemoveChange ''c'', NodeRemoveChange ''g'']]\<rparr>)"
proof -
  have 1: "currNodeOf storeTree (ById ''p'') = Some (asNode (storedNode ''p'' None None))"
    by (simp add: currNodeOf_def)
  have 2: "n_deletable (asNode (storedNode ''p'' None None)) \<noteq> Some False" by simp
  have 3: "rankTree ''p'' < 3" by (simp add: rankTree_def)
  then have r3: "rankTree (n_id (asNode (storedNode ''p'' None None))) < 3" by simp
  from removeNodes_cascade_of_target [OF 1 2 storeTree_ranked r3] obtain ncs ecs where
    "removeNodes 3 (Collection [ById ''p'']) True True storeTree =
       Some (storeTree\<lparr>triggered := triggered storeTree
               @ (if ecs = [] then [] else [EdgesChange ecs]) @ [NodesChange ncs]\<rparr>)"
    by blast
  then have "removeNodes 3 (Collection [ById ''p'']) True True storeTree \<noteq> None"
    by (simp only: option.distinct not_False_eq_True)
  with 1 2 3 storeTree_ranked storeTree_remove_p show ?thesis by blast
qed


lemma storeLocked_fields [simp]:
  "nodes storeLocked = [storedNode ''k'' None (Some False)]"
  "edges storeLocked = []"
  "triggered storeLocked = []"
  by (simp_all add: storeLocked_def)

lemma storeLoop_fields [simp]:
  "nodes storeLoop = [storedNode ''s'' (Some ''s'') None]"
  "edges storeLoop = []"
  "triggered storeLoop = []"
  by (simp_all add: storeLoop_def)

lemma storeTree_children_c:
  "createChildrenRemovalChanges 3 storeTree True ''c'' acc =
     Some (pushed acc [NodeRemoveChange ''g''] [EdgeRemoveChange ''e2'' ''x'' ''g'' None None])"
  by (simp add: eval_nat_numeral createChildrenRemovalChanges_Suc incident_def deletableEdge_def
        removalOf_def createNodeRemoveChange_def createEdgeRemoveChange_def)

text \<open>
  C3 as stated fails on two gates of the code. In the store whose node \<open>k\<close> is not
  deletable, removing \<open>k\<close> triggers nothing. In the tree store, removing \<open>c\<close> triggers the
  remove changes of \<open>c\<close>, of its child \<open>g\<close> and of the edge \<open>e2\<close> on \<open>g\<close>, and none for the
  edge \<open>e4\<close>, which is incident on \<open>c\<close> and not deletable.
\<close>

theorem removeNodes_gates_counterexample:
  "removeNodes 1 (Collection [ById ''k'']) True True storeLocked = Some storeLocked
   \<and> removeNodes 3 (Collection [ById ''c'']) True True storeTree =
       Some (storeTree\<lparr>triggered :=
         [EdgesChange [EdgeRemoveChange ''e2'' ''x'' ''g'' None None],
          NodesChange [NodeRemoveChange ''c'', NodeRemoveChange ''g'']]\<rparr>)
   \<and> storedEdge ''e4'' ''c'' ''x'' (Some False) \<in> set (edges storeTree)"
proof -
  have k: "currNodeOf storeLocked (ById ''k'') = Some (asNode (storedNode ''k'' None (Some False)))"
    by (simp add: currNodeOf_def findNode_def nodesMap_def)
  have a: "removeNodes 1 (Collection [ById ''k'']) True True storeLocked = Some storeLocked"
    by (simp add: removeNodes_def resolveArg_def removeNodesStep_Some k)
  have c: "currNodeOf storeTree (ById ''c'') = Some (asNode (storedNode ''c'' (Some ''p'') None))"
    by (simp add: currNodeOf_def findNode_def nodesMap_def)
  have s: "removeNodesStep 3 storeTree True True (ById ''c'') (Some \<lparr>nodeChanges = [], edgeChanges = []\<rparr>)
     = Some \<lparr>nodeChanges = [NodeRemoveChange ''c'', NodeRemoveChange ''g''],
             edgeChanges = [EdgeRemoveChange ''e2'' ''x'' ''g'' None None]\<rparr>"
    by (simp add: removeNodesStep_Some c storeTree_children_c
          incident_def deletableEdge_def removalOf_def createNodeRemoveChange_def
          createEdgeRemoveChange_def pushed_def)
  have b: "removeNodes 3 (Collection [ById ''c'']) True True storeTree =
       Some (storeTree\<lparr>triggered :=
         [EdgesChange [EdgeRemoveChange ''e2'' ''x'' ''g'' None None],
          NodesChange [NodeRemoveChange ''c'', NodeRemoveChange ''g'']]\<rparr>)"
    by (simp add: removeNodes_def resolveArg_def s trigger_def)
  show ?thesis using a b by simp
qed

text \<open>
  On a cycle of parent references the recursion over the children never comes back,
  whatever depth it is given.
\<close>

lemma storeLoop_never_returns:
  "createChildrenRemovalChanges depth storeLoop rce ''s'' acc = None"
proof (induction depth arbitrary: acc)
  case 0
  show ?case by (simp add: createChildrenRemovalChanges.simps)
next
  case (Suc depth)
  show ?case by (subst createChildrenRemovalChanges_Suc) (simp add: Suc.IH)
qed

lemma removeNodes_storeLoop: "removeNodes depth (Collection [ById ''s'']) True True storeLoop = None"
proof -
  have c: "currNodeOf storeLoop (ById ''s'') = Some (asNode (storedNode ''s'' (Some ''s'') None))"
    by (simp add: currNodeOf_def findNode_def nodesMap_def)
  show ?thesis
    by (simp add: removeNodes_def resolveArg_def removeNodesStep_Some c storeLoop_never_returns)
qed


lemma applyEdgeChange_removalOf:
  "applyEdgeChange (removalOf e') es = filter (\<lambda>x. ge_id x \<noteq> ge_id e') es"
  by (simp add: applyEdgeChange_def removalOf_def createEdgeRemoveChange_def)

lemma fold_applyEdgeChange_keeps:
  assumes "\<forall>c \<in> set cs. \<exists>e'. c = removalOf e' \<and> ge_id e' \<noteq> ge_id e"
  shows "e \<in> set es \<Longrightarrow> e \<in> set (fold applyEdgeChange cs es)"
  using assms
proof (induction cs arbitrary: es)
  case Nil
  then show ?case by simp
next
  case (Cons c cs)
  from Cons.prems(2) obtain e' where c: "c = removalOf e'" "ge_id e' \<noteq> ge_id e" by auto
  with Cons.prems(1) have "e \<in> set (applyEdgeChange c es)"
    by (simp add: applyEdgeChange_removalOf)
  moreover from Cons.prems(2) have "\<forall>c \<in> set cs. \<exists>e'. c = removalOf e' \<and> ge_id e' \<noteq> ge_id e"
    by simp
  ultimately show ?case using Cons.IH by simp
qed

lemma removalOf_id: "removalOf e = removalOf e' \<Longrightarrow> ge_id e = ge_id e'"
  by (simp add: removalOf_def createEdgeRemoveChange_def)

lemma distinct_ids_eq:
  "distinct (map ge_id es) \<Longrightarrow> e \<in> set es \<Longrightarrow> e' \<in> set es \<Longrightarrow> ge_id e = ge_id e' \<Longrightarrow> e = e'"
  by (metis distinct_map inj_on_eq_iff)

text \<open>
  C10. Let \<open>removeNodes\<close> run with \<open>removeConnectedEdges\<close>, for any targets, with or
  without \<open>removeChildren\<close> (with it, the parent references are free of cycles, so that the
  call returns). The edge changes it triggers are exactly the remove changes of the stored
  edges that are incident on a removed node and whose \<open>deletable\<close> flag is not \<open>false\<close>;
  every one of them is the remove change of a stored edge with that flag not \<open>false\<close>. The
  edge collection itself is not touched. When the edge ids are distinct, an edge with
  \<open>deletable\<close> \<open>false\<close> gets no remove change and is still in the collection after the
  diff engine has applied the triggered edge changes.
\<close>

theorem removeNodes_spares_undeletable_edges:
  assumes "rc \<longrightarrow> parentsRanked rank st \<and> (\<forall>i. rank i < depth)"
  shows "\<exists>ncs ecs.
     removeNodes depth arg True rc st =
       Some (st\<lparr>triggered := triggered st @ (if ecs = [] then [] else [EdgesChange ecs])
                    @ (if ncs = [] then [] else [NodesChange ncs])\<rparr>)
     \<and> set ecs = edgeRemovals st (\<Union>item \<in> set (resolveArg arg (nodes st)). itemIds st rc item)
     \<and> (\<forall>c \<in> set ecs. \<exists>e \<in> set (edges st). deletableEdge e \<and> c = removalOf e)
     \<and> (distinct (map ge_id (edges st)) \<longrightarrow>
          (\<forall>e \<in> set (edges st). ge_deletable e = Some False \<longrightarrow>
              removalOf e \<notin> set ecs \<and> e \<in> set (fold applyEdgeChange ecs (edges st))))"
proof -
  let ?J = "\<Union>item \<in> set (resolveArg arg (nodes st)). itemIds st rc item"
  have ranked: "rc \<Longrightarrow> parentsRanked rank st" using assms by simp
  have deep: "\<And>item n. rc \<Longrightarrow> item \<in> set (resolveArg arg (nodes st))
                 \<Longrightarrow> currNodeOf st item = Some n \<Longrightarrow> rank (n_id n) < depth"
    using assms by simp
  have "\<exists>ncs ecs.
     removeNodes depth arg True rc st =
       Some (st\<lparr>triggered := triggered st @ (if ecs = [] then [] else [EdgesChange ecs])
                    @ (if ncs = [] then [] else [NodesChange ncs])\<rparr>)
     \<and> set ncs = nodeRemovals ?J
     \<and> set ecs = (if True then edgeRemovals st ?J else {})"
    by (rule removeNodes_cascade [where rank = rank]) (erule ranked, erule deep, assumption+)
  then obtain ncs ecs where
    r: "removeNodes depth arg True rc st =
       Some (st\<lparr>triggered := triggered st @ (if ecs = [] then [] else [EdgesChange ecs])
                    @ (if ncs = [] then [] else [NodesChange ncs])\<rparr>)"
    and e: "set ecs = edgeRemovals st ?J"
    unfolding if_True by blast
  have only: "\<forall>c \<in> set ecs. \<exists>e \<in> set (edges st). deletableEdge e \<and> c = removalOf e"
    unfolding e by (auto simp: edgeRemovals_def)
  have spared: "distinct (map ge_id (edges st)) \<longrightarrow>
          (\<forall>e \<in> set (edges st). ge_deletable e = Some False \<longrightarrow>
              removalOf e \<notin> set ecs \<and> e \<in> set (fold applyEdgeChange ecs (edges st)))"
  proof (intro impI ballI)
    fix e assume d: "distinct (map ge_id (edges st))" and m: "e \<in> set (edges st)"
      and u: "ge_deletable e = Some False"
    have other: "\<forall>c \<in> set ecs. \<exists>e'. c = removalOf e' \<and> ge_id e' \<noteq> ge_id e"
    proof
      fix c assume "c \<in> set ecs"
      with only obtain e' where e': "e' \<in> set (edges st)" "deletableEdge e'" "c = removalOf e'"
        by blast
      from u e'(2) have "e' \<noteq> e" by (auto simp: deletableEdge_def)
      with d m e'(1) have "ge_id e' \<noteq> ge_id e" using distinct_ids_eq by blast
      with e'(3) show "\<exists>e'. c = removalOf e' \<and> ge_id e' \<noteq> ge_id e" by blast
    qed
    have "removalOf e \<notin> set ecs"
    proof
      assume "removalOf e \<in> set ecs"
      with other obtain e' where "removalOf e = removalOf e'" "ge_id e' \<noteq> ge_id e" by blast
      then show False using removalOf_id [of e e'] by simp
    qed
    moreover have "e \<in> set (fold applyEdgeChange ecs (edges st))"
      using other m by (rule fold_applyEdgeChange_keeps)
    ultimately show "removalOf e \<notin> set ecs \<and> e \<in> set (fold applyEdgeChange ecs (edges st))" ..
  qed
  from r e only spared show ?thesis by blast
qed


lemma storeTree_remove_x:
  "removeNodes 3 (Collection [ById ''x'']) True True storeTree =
       Some (storeTree\<lparr>triggered :=
         [EdgesChange [EdgeRemoveChange ''e1'' ''p'' ''x'' None None,
                       EdgeRemoveChange ''e2'' ''x'' ''g'' None None,
                       EdgeRemoveChange ''e3'' ''x'' ''x'' None None],
          NodesChange [NodeRemoveChange ''x'']]\<rparr>)"
proof -
  have c: "currNodeOf storeTree (ById ''x'') = Some (asNode (storedNode ''x'' None None))"
    by (simp add: currNodeOf_def)
  have k: "\<And>acc. createChildrenRemovalChanges 3 storeTree True ''x'' acc = Some acc"
    by (simp add: eval_nat_numeral createChildrenRemovalChanges_Suc)
  have s: "removeNodesStep 3 storeTree True True (ById ''x'') (Some \<lparr>nodeChanges = [], edgeChanges = []\<rparr>)
     = Some \<lparr>nodeChanges = [NodeRemoveChange ''x''],
             edgeChanges = [EdgeRemoveChange ''e1'' ''p'' ''x'' None None,
                       EdgeRemoveChange ''e2'' ''x'' ''g'' None None,
                       EdgeRemoveChange ''e3'' ''x'' ''x'' None None]\<rparr>"
    by (simp add: removeNodesStep_Some c k
          incident_def deletableEdge_def removalOf_def createNodeRemoveChange_def
          createEdgeRemoveChange_def pushed_def)
  show ?thesis
    by (simp add: removeNodes_def resolveArg_def s trigger_def)
qed

theorem removeNodes_spares_undeletable_edges_witness:
  "parentsRanked rankTree storeTree
   \<and> (\<forall>i. rankTree i < 3)
   \<and> distinct (map ge_id (edges storeTree))
   \<and> removeNodes 3 (Collection [ById ''x'']) True True storeTree =
       Some (storeTree\<lparr>triggered :=
         [EdgesChange [EdgeRemoveChange ''e1'' ''p'' ''x'' None None,
                       EdgeRemoveChange ''e2'' ''x'' ''g'' None None,
                       EdgeRemoveChange ''e3'' ''x'' ''x'' None None],
          NodesChange [NodeRemoveChange ''x'']]\<rparr>)
   \<and> fold applyEdgeChange [EdgeRemoveChange ''e1'' ''p'' ''x'' None None,
                       EdgeRemoveChange ''e2'' ''x'' ''g'' None None,
                       EdgeRemoveChange ''e3'' ''x'' ''x'' None None] (edges storeTree)
       = [storedEdge ''e4'' ''c'' ''x'' (Some False)]"
proof -
  have 1: "\<forall>i. rankTree i < 3" by (simp add: rankTree_def)
  have 2: "distinct (map ge_id (edges storeTree))" by simp
  have 3: "fold applyEdgeChange [EdgeRemoveChange ''e1'' ''p'' ''x'' None None,
                       EdgeRemoveChange ''e2'' ''x'' ''g'' None None,
                       EdgeRemoveChange ''e3'' ''x'' ''x'' None None] (edges storeTree)
       = [storedEdge ''e4'' ''c'' ''x'' (Some False)]"
    by (simp add: applyEdgeChange_def)
  from removeNodes_spares_undeletable_edges [of True rankTree storeTree 3 "Collection [ById ''x'']"] storeTree_ranked 1
  obtain ncs ecs where
    "removeNodes 3 (Collection [ById ''x'']) True True storeTree =
       Some (storeTree\<lparr>triggered := triggered storeTree @ (if ecs = [] then [] else [EdgesChange ecs])
                    @ (if ncs = [] then [] else [NodesChange ncs])\<rparr>)"
    by blast
  then have "removeNodes 3 (Collection [ById ''x'']) True True storeTree \<noteq> None"
    by (simp only: option.distinct not_False_eq_True)
  with storeTree_ranked 1 2 3 storeTree_remove_x show ?thesis by blast
qed

section \<open>Export and import\<close>


lemma asNode_parseNode [simp]: "asNode (parseNode ns n old) = n"
  by (simp add: asNode_def parseNode_def)


lemma jsonNode_fields [simp]:
  "n_id (jsonNode n) = n_id n"
  "n_data (jsonNode n) = n_data n"
  "n_position (jsonNode n) = jsonPosition (n_position n)"
  by (simp_all add: jsonNode_def)













lemma storePair_fields [simp]:
  "nodes storePair = [storedNode ''a'' None None, storedNode ''b'' None None]"
  "edges storePair = [storedEdge ''e1'' ''a'' ''b'' None]"
  "isValidConnection storePair = None"
  "initialized storePair"
  by (simp_all add: storePair_def)

lemma storeDangling_fields [simp]:
  "nodes storeDangling = [storedNode ''a'' None None]"
  "edges storeDangling = [storedEdge ''e1'' ''a'' ''b'' None]"
  "isValidConnection storeDangling = None"
  "initialized storeDangling"
  by (simp_all add: storeDangling_def)

lemma storeStrict_fields [simp]:
  "nodes storeStrict = [storedNode ''a'' None None]"
  "edges storeStrict = [storedEdge ''e1'' ''a'' ''a'' None]"
  "isValidConnection storeStrict = Some (\<lambda>e es ns src tgt. False)"
  "initialized storeStrict"
  by (simp_all add: storeStrict_def)

lemma storeNaN_fields [simp]:
  "nodes storeNaN = [(storedNode ''a'' None None)\<lparr>gn_position := \<lparr>pos_x = NaN, pos_y = Num 0\<rparr>\<rparr>]"
  "edges storeNaN = []"
  "isValidConnection storeNaN = None"
  "initialized storeNaN"
  by (simp_all add: storeNaN_def)

lemma storeTree_more_fields [simp]:
  "initialized storeTree"
  "isValidConnection storeTree = None"
  by (simp_all add: storeTree_def)

lemma storedNode_position [simp]:
  "gn_position (storedNode i parent deletable) = \<lparr>pos_x = Num 0, pos_y = Num 0\<rparr>"
  by (simp add: storedNode_def parseNode_def plainNode_def)



end
